theory Spec2Isabelle
  imports Main "HOL-Library.Word" "HOL-Library.Multiset"
begin

section \<open>Values and SQL clauses\<close>

text \<open>
  Identifiers are UUIDs, 128-bit values compared as unsigned numbers. A point in time is
  a number of microseconds on the UTC line, a duration a difference of two of them. The
  members of \<open>schemas.states.StateType\<close> are declared outside the two source files, so
  the type is left abstract; a recurrence rule is opaque to this code and is kept in its
  serialised form.
\<close>

type_synonym uuid = "128 word"
type_synonym datetime = int
type_synonym timedelta = int
typedecl StateType
type_synonym Schedule = string

text \<open>
  A clause is what a SQLAlchemy boolean expression evaluates to on one row: SQL's three
  truth values, with \<open>None\<close> for NULL (unknown). A column read gives \<open>None\<close> for
  NULL. A WHERE clause keeps the rows on which it evaluates to true.
\<close>

type_synonym 'e clause = "'e \<Rightarrow> bool option"
type_synonym ('e, 'a) column = "'e \<Rightarrow> 'a option"

definition selects :: "'e clause \<Rightarrow> 'e \<Rightarrow> bool" where
  "selects c e = (c e = Some True)"

definition not_null :: "('e \<Rightarrow> 'a) \<Rightarrow> ('e, 'a) column" where
  "not_null f e = Some (f e)"

text \<open>\<open>sa.and_(*clauses)\<close>: false if one operand is false, else unknown if one is unknown.\<close>

definition sa_and :: "'e clause list \<Rightarrow> 'e clause" where
  "sa_and cs e =
     (if list_ex (\<lambda>c. c e = Some False) cs then Some False
      else if list_ex (\<lambda>c. c e = None) cs then None
      else Some True)"

text \<open>The literal \<open>True\<close> as \<open>sa.and_(True)\<close> coerces it.\<close>

definition sa_true :: "'e clause" where
  "sa_true e = Some True"

definition sa_not :: "'e clause \<Rightarrow> 'e clause" where
  "sa_not c e = map_option Not (c e)"

text \<open>
  \<open>column.in_(values)\<close> and \<open>column.not_in(values)\<close>. An empty list is rendered as
  an empty set: IN is then false and NOT IN true on every row, also where the column is
  NULL.
\<close>

definition col_in :: "('e, 'a) column \<Rightarrow> 'a list \<Rightarrow> 'e clause" where
  "col_in col vs e =
     (if vs = [] then Some False
      else case col e of None \<Rightarrow> None | Some v \<Rightarrow> Some (v \<in> set vs))"

definition col_not_in :: "('e, 'a) column \<Rightarrow> 'a list \<Rightarrow> 'e clause" where
  "col_not_in col vs e =
     (if vs = [] then Some True
      else case col e of None \<Rightarrow> None | Some v \<Rightarrow> Some (v \<notin> set vs))"

text \<open>\<open>column == value\<close> and \<open>column != value\<close> for a value that is not \<open>None\<close>.\<close>

definition col_eq :: "('e, 'a) column \<Rightarrow> 'a \<Rightarrow> 'e clause" where
  "col_eq col x e = (case col e of None \<Rightarrow> None | Some v \<Rightarrow> Some (v = x))"

definition col_ne :: "('e, 'a) column \<Rightarrow> 'a \<Rightarrow> 'e clause" where
  "col_ne col x e = (case col e of None \<Rightarrow> None | Some v \<Rightarrow> Some (v \<noteq> x))"

text \<open>\<open>column == None\<close> is IS NULL, \<open>column != None\<close> is IS NOT NULL.\<close>

definition col_is_null :: "('e, 'a) column \<Rightarrow> 'e clause" where
  "col_is_null col e = Some (col e = None)"

definition col_is_not_null :: "('e, 'a) column \<Rightarrow> 'e clause" where
  "col_is_not_null col e = Some (col e \<noteq> None)"

text \<open>\<open>column <= value\<close> and \<open>column >= value\<close>.\<close>

definition col_le :: "('e, 'a::linorder) column \<Rightarrow> 'a \<Rightarrow> 'e clause" where
  "col_le col x e = (case col e of None \<Rightarrow> None | Some v \<Rightarrow> Some (v \<le> x))"

definition col_ge :: "('e, 'a::linorder) column \<Rightarrow> 'a \<Rightarrow> 'e clause" where
  "col_ge col x e = (case col e of None \<Rightarrow> None | Some v \<Rightarrow> Some (x \<le> v))"

text \<open>\<open>column.is_(b)\<close> for a boolean \<open>b\<close>: IS TRUE or IS FALSE, never unknown.\<close>

definition col_is :: "('e, bool) column \<Rightarrow> bool \<Rightarrow> 'e clause" where
  "col_is col b e = Some (col e = Some b)"

text \<open>
  \<open>relationship.has(criterion)\<close>: EXISTS over the related row, never unknown;
  \<open>relationship.has()\<close> is \<open>rel_has rel sa_true\<close>.
\<close>

definition rel_has :: "('e \<Rightarrow> 'r option) \<Rightarrow> 'r clause \<Rightarrow> 'e clause" where
  "rel_has rel crit e = Some (case rel e of None \<Rightarrow> False | Some r \<Rightarrow> crit r = Some True)"

text \<open>
  Modelled from the spec: \<open>json_has_all_keys\<close> of \<open>prefect.orion.utilities.database\<close>
  is not among the source files. The spec gives the superset operator: the entity's value
  set contains every supplied element, order and duplicates irrelevant.
\<close>

definition json_has_all_keys :: "('e \<Rightarrow> string list) \<Rightarrow> string list \<Rightarrow> 'e clause" where
  "json_has_all_keys col vs e = Some (set vs \<subseteq> set (col e))"

section \<open>Entities\<close>

text \<open>
  Modelled from the spec: the classes of \<open>prefect.orion.models.orm\<close> are not among the
  source files. Each record has the attributes that \<open>filters.py\<close> and \<open>scheduler.py\<close>
  read, with the spec's data model for what they hold. A column that a filter tests for
  NULL, or that the spec calls optional, is nullable; so are the state and the times of a
  run, which a run receives after its creation.
\<close>

record Flow =
  id :: uuid
  name :: string
  tags :: "string list"

record FlowRunState =
  name :: string

record FlowRun =
  id :: uuid
  flow_id :: uuid
  name :: string
  tags :: "string list"
  deployment_id :: "uuid option"
  state_type :: "StateType option"
  state :: "FlowRunState option"
  flow_version :: "string option"
  start_time :: "datetime option"
  expected_start_time :: "datetime option"
  next_scheduled_start_time :: "datetime option"
  parent_task_run_id :: "uuid option"

record TaskRunState =
  name :: string

record TaskRun =
  id :: uuid
  flow_run_id :: uuid
  name :: string
  tags :: "string list"
  state_type :: "StateType option"
  state :: "TaskRunState option"
  start_time :: "datetime option"
  subflow_run :: "FlowRun option"

record Deployment =
  id :: uuid
  name :: string
  tags :: "string list"
  schedule :: "Schedule option"
  is_schedule_active :: bool

section \<open>filters.py\<close>

text \<open>
  A field declared \<open>Field(None, ...)\<close> or \<open>Optional[...]\<close> is an \<open>option\<close>, unset
  being \<open>None\<close>. The source's field names end in an underscore (\<open>any_\<close>, \<open>is_null_\<close>),
  which a name cannot do here, so the underscore is dropped. Fields of the same name in
  different classes are told apart by the class: \<open>FlowFilterId.any\<close>.
\<close>

subsection \<open>PrefectFilterBaseModel\<close>

text \<open>
  \<open>as_sql_filter\<close> takes the list that the class's \<open>_get_filter_list\<close> returned:
  \<open>sa.and_(*filters) if filters else sa.and_(True)\<close>.
\<close>

definition as_sql_filter :: "'e clause list \<Rightarrow> 'e clause" where
  "as_sql_filter filters = (if filters \<noteq> [] then sa_and filters else sa_and [sa_true])"

subsection \<open>Flow filters\<close>

record FlowFilterId =
  any :: "uuid list option"

definition FlowFilterId_get_filter_list :: "FlowFilterId \<Rightarrow> Flow clause list" where
  "FlowFilterId_get_filter_list self =
     (case FlowFilterId.any self of None \<Rightarrow> [] | Some vs \<Rightarrow> [col_in (not_null Flow.id) vs])"

record FlowFilterName =
  any :: "string list option"

definition FlowFilterName_get_filter_list :: "FlowFilterName \<Rightarrow> Flow clause list" where
  "FlowFilterName_get_filter_list self =
     (case FlowFilterName.any self of None \<Rightarrow> [] | Some vs \<Rightarrow> [col_in (not_null Flow.name) vs])"

record FlowFilterTags =
  all :: "string list option"
  is_null :: "bool option"

definition FlowFilterTags_get_filter_list :: "FlowFilterTags \<Rightarrow> Flow clause list" where
  "FlowFilterTags_get_filter_list self =
     (case FlowFilterTags.all self of None \<Rightarrow> []
      | Some vs \<Rightarrow> [json_has_all_keys Flow.tags vs]) @
     (case FlowFilterTags.is_null self of None \<Rightarrow> []
      | Some b \<Rightarrow> [if b then col_eq (not_null Flow.tags) [] else col_ne (not_null Flow.tags) []])"

record FlowFilter =
  id :: "FlowFilterId option"
  name :: "FlowFilterName option"
  tags :: "FlowFilterTags option"

definition FlowFilter_get_filter_list :: "FlowFilter \<Rightarrow> Flow clause list" where
  "FlowFilter_get_filter_list self =
     (case FlowFilter.id self of None \<Rightarrow> []
      | Some f \<Rightarrow> [as_sql_filter (FlowFilterId_get_filter_list f)]) @
     (case FlowFilter.name self of None \<Rightarrow> []
      | Some f \<Rightarrow> [as_sql_filter (FlowFilterName_get_filter_list f)]) @
     (case FlowFilter.tags self of None \<Rightarrow> []
      | Some f \<Rightarrow> [as_sql_filter (FlowFilterTags_get_filter_list f)])"

subsection \<open>Flow run filters\<close>

record FlowRunFilterId =
  any :: "uuid list option"
  not_any :: "uuid list option"

definition FlowRunFilterId_get_filter_list :: "FlowRunFilterId \<Rightarrow> FlowRun clause list" where
  "FlowRunFilterId_get_filter_list self =
     (case FlowRunFilterId.any self of None \<Rightarrow> []
      | Some vs \<Rightarrow> [col_in (not_null FlowRun.id) vs]) @
     (case FlowRunFilterId.not_any self of None \<Rightarrow> []
      | Some vs \<Rightarrow> [col_not_in (not_null FlowRun.id) vs])"

record FlowRunFilterName =
  any :: "string list option"

definition FlowRunFilterName_get_filter_list :: "FlowRunFilterName \<Rightarrow> FlowRun clause list" where
  "FlowRunFilterName_get_filter_list self =
     (case FlowRunFilterName.any self of None \<Rightarrow> []
      | Some vs \<Rightarrow> [col_in (not_null FlowRun.name) vs])"

record FlowRunFilterTags =
  all :: "string list option"
  is_null :: "bool option"

definition FlowRunFilterTags_get_filter_list :: "FlowRunFilterTags \<Rightarrow> FlowRun clause list" where
  "FlowRunFilterTags_get_filter_list self =
     (case FlowRunFilterTags.all self of None \<Rightarrow> []
      | Some vs \<Rightarrow> [json_has_all_keys FlowRun.tags vs]) @
     (case FlowRunFilterTags.is_null self of None \<Rightarrow> []
      | Some b \<Rightarrow>
          [if b then col_eq (not_null FlowRun.tags) [] else col_ne (not_null FlowRun.tags) []])"

record FlowRunFilterDeploymentId =
  any :: "uuid list option"
  is_null :: "bool option"

definition FlowRunFilterDeploymentId_get_filter_list ::
  "FlowRunFilterDeploymentId \<Rightarrow> FlowRun clause list" where
  "FlowRunFilterDeploymentId_get_filter_list self =
     (case FlowRunFilterDeploymentId.any self of None \<Rightarrow> []
      | Some vs \<Rightarrow> [col_in FlowRun.deployment_id vs]) @
     (case FlowRunFilterDeploymentId.is_null self of None \<Rightarrow> []
      | Some b \<Rightarrow>
          [if b then col_is_null FlowRun.deployment_id
           else col_is_not_null FlowRun.deployment_id])"

record FlowRunFilterStateType =
  any :: "StateType list option"

definition FlowRunFilterStateType_get_filter_list ::
  "FlowRunFilterStateType \<Rightarrow> FlowRun clause list" where
  "FlowRunFilterStateType_get_filter_list self =
     (case FlowRunFilterStateType.any self of None \<Rightarrow> []
      | Some vs \<Rightarrow> [col_in FlowRun.state_type vs])"

record FlowRunFilterStateName =
  any :: "string list option"

definition FlowRunFilterStateName_get_filter_list ::
  "FlowRunFilterStateName \<Rightarrow> FlowRun clause list" where
  "FlowRunFilterStateName_get_filter_list self =
     (case FlowRunFilterStateName.any self of None \<Rightarrow> []
      | Some vs \<Rightarrow> [rel_has FlowRun.state (col_in (not_null FlowRunState.name) vs)])"

record FlowRunFilterState =
  type :: "FlowRunFilterStateType option"
  name :: "FlowRunFilterStateName option"

text \<open>The state filter extends its list with its children's lists, not with their conjunctions.\<close>

definition FlowRunFilterState_get_filter_list :: "FlowRunFilterState \<Rightarrow> FlowRun clause list" where
  "FlowRunFilterState_get_filter_list self =
     (case FlowRunFilterState.type self of None \<Rightarrow> []
      | Some f \<Rightarrow> FlowRunFilterStateType_get_filter_list f) @
     (case FlowRunFilterState.name self of None \<Rightarrow> []
      | Some f \<Rightarrow> FlowRunFilterStateName_get_filter_list f)"

record FlowRunFilterFlowVersion =
  any :: "string list option"

definition FlowRunFilterFlowVersion_get_filter_list ::
  "FlowRunFilterFlowVersion \<Rightarrow> FlowRun clause list" where
  "FlowRunFilterFlowVersion_get_filter_list self =
     (case FlowRunFilterFlowVersion.any self of None \<Rightarrow> []
      | Some vs \<Rightarrow> [col_in FlowRun.flow_version vs])"

record FlowRunFilterStartTime =
  before :: "datetime option"
  after :: "datetime option"
  is_null :: "bool option"

definition FlowRunFilterStartTime_get_filter_list ::
  "FlowRunFilterStartTime \<Rightarrow> FlowRun clause list" where
  "FlowRunFilterStartTime_get_filter_list self =
     (case FlowRunFilterStartTime.before self of None \<Rightarrow> []
      | Some t \<Rightarrow> [col_le FlowRun.start_time t]) @
     (case FlowRunFilterStartTime.after self of None \<Rightarrow> []
      | Some t \<Rightarrow> [col_ge FlowRun.start_time t]) @
     (case FlowRunFilterStartTime.is_null self of None \<Rightarrow> []
      | Some b \<Rightarrow>
          [if b then col_is_null FlowRun.start_time else col_is_not_null FlowRun.start_time])"

record FlowRunFilterExpectedStartTime =
  before :: "datetime option"
  after :: "datetime option"

definition FlowRunFilterExpectedStartTime_get_filter_list ::
  "FlowRunFilterExpectedStartTime \<Rightarrow> FlowRun clause list" where
  "FlowRunFilterExpectedStartTime_get_filter_list self =
     (case FlowRunFilterExpectedStartTime.before self of None \<Rightarrow> []
      | Some t \<Rightarrow> [col_le FlowRun.expected_start_time t]) @
     (case FlowRunFilterExpectedStartTime.after self of None \<Rightarrow> []
      | Some t \<Rightarrow> [col_ge FlowRun.expected_start_time t])"

record FlowRunFilterNextScheduledStartTime =
  before :: "datetime option"
  after :: "datetime option"

definition FlowRunFilterNextScheduledStartTime_get_filter_list ::
  "FlowRunFilterNextScheduledStartTime \<Rightarrow> FlowRun clause list" where
  "FlowRunFilterNextScheduledStartTime_get_filter_list self =
     (case FlowRunFilterNextScheduledStartTime.before self of None \<Rightarrow> []
      | Some t \<Rightarrow> [col_le FlowRun.next_scheduled_start_time t]) @
     (case FlowRunFilterNextScheduledStartTime.after self of None \<Rightarrow> []
      | Some t \<Rightarrow> [col_ge FlowRun.next_scheduled_start_time t])"

record FlowRunFilterParentTaskRunId =
  any :: "uuid list option"
  is_null :: "bool option"

definition FlowRunFilterParentTaskRunId_get_filter_list ::
  "FlowRunFilterParentTaskRunId \<Rightarrow> FlowRun clause list" where
  "FlowRunFilterParentTaskRunId_get_filter_list self =
     (case FlowRunFilterParentTaskRunId.any self of None \<Rightarrow> []
      | Some vs \<Rightarrow> [col_in FlowRun.parent_task_run_id vs]) @
     (case FlowRunFilterParentTaskRunId.is_null self of None \<Rightarrow> []
      | Some b \<Rightarrow>
          [if b then col_is_null FlowRun.parent_task_run_id
           else col_is_not_null FlowRun.parent_task_run_id])"

record FlowRunFilter =
  id :: "FlowRunFilterId option"
  name :: "FlowRunFilterName option"
  tags :: "FlowRunFilterTags option"
  deployment_id :: "FlowRunFilterDeploymentId option"
  state :: "FlowRunFilterState option"
  flow_version :: "FlowRunFilterFlowVersion option"
  start_time :: "FlowRunFilterStartTime option"
  expected_start_time :: "FlowRunFilterExpectedStartTime option"
  next_scheduled_start_time :: "FlowRunFilterNextScheduledStartTime option"
  parent_task_run_id :: "FlowRunFilterParentTaskRunId option"

text \<open>The slots are visited in the order of the source, \<open>flow_version\<close> before \<open>state\<close>.\<close>

definition FlowRunFilter_get_filter_list :: "FlowRunFilter \<Rightarrow> FlowRun clause list" where
  "FlowRunFilter_get_filter_list self =
     (case FlowRunFilter.id self of None \<Rightarrow> []
      | Some f \<Rightarrow> [as_sql_filter (FlowRunFilterId_get_filter_list f)]) @
     (case FlowRunFilter.name self of None \<Rightarrow> []
      | Some f \<Rightarrow> [as_sql_filter (FlowRunFilterName_get_filter_list f)]) @
     (case FlowRunFilter.tags self of None \<Rightarrow> []
      | Some f \<Rightarrow> [as_sql_filter (FlowRunFilterTags_get_filter_list f)]) @
     (case FlowRunFilter.deployment_id self of None \<Rightarrow> []
      | Some f \<Rightarrow> [as_sql_filter (FlowRunFilterDeploymentId_get_filter_list f)]) @
     (case FlowRunFilter.flow_version self of None \<Rightarrow> []
      | Some f \<Rightarrow> [as_sql_filter (FlowRunFilterFlowVersion_get_filter_list f)]) @
     (case FlowRunFilter.state self of None \<Rightarrow> []
      | Some f \<Rightarrow> [as_sql_filter (FlowRunFilterState_get_filter_list f)]) @
     (case FlowRunFilter.start_time self of None \<Rightarrow> []
      | Some f \<Rightarrow> [as_sql_filter (FlowRunFilterStartTime_get_filter_list f)]) @
     (case FlowRunFilter.expected_start_time self of None \<Rightarrow> []
      | Some f \<Rightarrow> [as_sql_filter (FlowRunFilterExpectedStartTime_get_filter_list f)]) @
     (case FlowRunFilter.next_scheduled_start_time self of None \<Rightarrow> []
      | Some f \<Rightarrow> [as_sql_filter (FlowRunFilterNextScheduledStartTime_get_filter_list f)]) @
     (case FlowRunFilter.parent_task_run_id self of None \<Rightarrow> []
      | Some f \<Rightarrow> [as_sql_filter (FlowRunFilterParentTaskRunId_get_filter_list f)])"

subsection \<open>Task run filters\<close>

record TaskRunFilterId =
  any :: "uuid list option"

definition TaskRunFilterId_get_filter_list :: "TaskRunFilterId \<Rightarrow> TaskRun clause list" where
  "TaskRunFilterId_get_filter_list self =
     (case TaskRunFilterId.any self of None \<Rightarrow> []
      | Some vs \<Rightarrow> [col_in (not_null TaskRun.id) vs])"

record TaskRunFilterName =
  any :: "string list option"

definition TaskRunFilterName_get_filter_list :: "TaskRunFilterName \<Rightarrow> TaskRun clause list" where
  "TaskRunFilterName_get_filter_list self =
     (case TaskRunFilterName.any self of None \<Rightarrow> []
      | Some vs \<Rightarrow> [col_in (not_null TaskRun.name) vs])"

record TaskRunFilterTags =
  all :: "string list option"
  is_null :: "bool option"

definition TaskRunFilterTags_get_filter_list :: "TaskRunFilterTags \<Rightarrow> TaskRun clause list" where
  "TaskRunFilterTags_get_filter_list self =
     (case TaskRunFilterTags.all self of None \<Rightarrow> []
      | Some vs \<Rightarrow> [json_has_all_keys TaskRun.tags vs]) @
     (case TaskRunFilterTags.is_null self of None \<Rightarrow> []
      | Some b \<Rightarrow>
          [if b then col_eq (not_null TaskRun.tags) [] else col_ne (not_null TaskRun.tags) []])"

record TaskRunFilterStateType =
  any :: "StateType list option"

definition TaskRunFilterStateType_get_filter_list ::
  "TaskRunFilterStateType \<Rightarrow> TaskRun clause list" where
  "TaskRunFilterStateType_get_filter_list self =
     (case TaskRunFilterStateType.any self of None \<Rightarrow> []
      | Some vs \<Rightarrow> [col_in TaskRun.state_type vs])"

record TaskRunFilterStateName =
  any :: "string list option"

definition TaskRunFilterStateName_get_filter_list ::
  "TaskRunFilterStateName \<Rightarrow> TaskRun clause list" where
  "TaskRunFilterStateName_get_filter_list self =
     (case TaskRunFilterStateName.any self of None \<Rightarrow> []
      | Some vs \<Rightarrow> [rel_has TaskRun.state (col_in (not_null TaskRunState.name) vs)])"

record TaskRunFilterState =
  type :: "TaskRunFilterStateType option"
  name :: "TaskRunFilterStateName option"

definition TaskRunFilterState_get_filter_list :: "TaskRunFilterState \<Rightarrow> TaskRun clause list" where
  "TaskRunFilterState_get_filter_list self =
     (case TaskRunFilterState.type self of None \<Rightarrow> []
      | Some f \<Rightarrow> TaskRunFilterStateType_get_filter_list f) @
     (case TaskRunFilterState.name self of None \<Rightarrow> []
      | Some f \<Rightarrow> TaskRunFilterStateName_get_filter_list f)"

record TaskRunFilterSubFlowRuns =
  exists :: "bool option"

definition TaskRunFilterSubFlowRuns_get_filter_list ::
  "TaskRunFilterSubFlowRuns \<Rightarrow> TaskRun clause list" where
  "TaskRunFilterSubFlowRuns_get_filter_list self =
     (if TaskRunFilterSubFlowRuns.exists self = Some True
        then [rel_has TaskRun.subflow_run sa_true]
      else if TaskRunFilterSubFlowRuns.exists self = Some False
        then [sa_not (rel_has TaskRun.subflow_run sa_true)]
      else [])"

record TaskRunFilterStartTime =
  before :: "datetime option"
  after :: "datetime option"
  is_null :: "bool option"

definition TaskRunFilterStartTime_get_filter_list ::
  "TaskRunFilterStartTime \<Rightarrow> TaskRun clause list" where
  "TaskRunFilterStartTime_get_filter_list self =
     (case TaskRunFilterStartTime.before self of None \<Rightarrow> []
      | Some t \<Rightarrow> [col_le TaskRun.start_time t]) @
     (case TaskRunFilterStartTime.after self of None \<Rightarrow> []
      | Some t \<Rightarrow> [col_ge TaskRun.start_time t]) @
     (case TaskRunFilterStartTime.is_null self of None \<Rightarrow> []
      | Some b \<Rightarrow>
          [if b then col_is_null TaskRun.start_time else col_is_not_null TaskRun.start_time])"

record TaskRunFilter =
  id :: "TaskRunFilterId option"
  name :: "TaskRunFilterName option"
  tags :: "TaskRunFilterTags option"
  state :: "TaskRunFilterState option"
  start_time :: "TaskRunFilterStartTime option"
  subflow_runs :: "TaskRunFilterSubFlowRuns option"

definition TaskRunFilter_get_filter_list :: "TaskRunFilter \<Rightarrow> TaskRun clause list" where
  "TaskRunFilter_get_filter_list self =
     (case TaskRunFilter.id self of None \<Rightarrow> []
      | Some f \<Rightarrow> [as_sql_filter (TaskRunFilterId_get_filter_list f)]) @
     (case TaskRunFilter.name self of None \<Rightarrow> []
      | Some f \<Rightarrow> [as_sql_filter (TaskRunFilterName_get_filter_list f)]) @
     (case TaskRunFilter.tags self of None \<Rightarrow> []
      | Some f \<Rightarrow> [as_sql_filter (TaskRunFilterTags_get_filter_list f)]) @
     (case TaskRunFilter.state self of None \<Rightarrow> []
      | Some f \<Rightarrow> [as_sql_filter (TaskRunFilterState_get_filter_list f)]) @
     (case TaskRunFilter.start_time self of None \<Rightarrow> []
      | Some f \<Rightarrow> [as_sql_filter (TaskRunFilterStartTime_get_filter_list f)]) @
     (case TaskRunFilter.subflow_runs self of None \<Rightarrow> []
      | Some f \<Rightarrow> [as_sql_filter (TaskRunFilterSubFlowRuns_get_filter_list f)])"

subsection \<open>Deployment filters\<close>

record DeploymentFilterId =
  any :: "uuid list option"

definition DeploymentFilterId_get_filter_list ::
  "DeploymentFilterId \<Rightarrow> Deployment clause list" where
  "DeploymentFilterId_get_filter_list self =
     (case DeploymentFilterId.any self of None \<Rightarrow> []
      | Some vs \<Rightarrow> [col_in (not_null Deployment.id) vs])"

record DeploymentFilterName =
  any :: "string list option"

definition DeploymentFilterName_get_filter_list ::
  "DeploymentFilterName \<Rightarrow> Deployment clause list" where
  "DeploymentFilterName_get_filter_list self =
     (case DeploymentFilterName.any self of None \<Rightarrow> []
      | Some vs \<Rightarrow> [col_in (not_null Deployment.name) vs])"

record DeploymentFilterIsScheduleActive =
  eq :: "bool option"

definition DeploymentFilterIsScheduleActive_get_filter_list ::
  "DeploymentFilterIsScheduleActive \<Rightarrow> Deployment clause list" where
  "DeploymentFilterIsScheduleActive_get_filter_list self =
     (case DeploymentFilterIsScheduleActive.eq self of None \<Rightarrow> []
      | Some b \<Rightarrow> [col_is (not_null Deployment.is_schedule_active) b])"

record DeploymentFilterTags =
  all :: "string list option"
  is_null :: "bool option"

definition DeploymentFilterTags_get_filter_list ::
  "DeploymentFilterTags \<Rightarrow> Deployment clause list" where
  "DeploymentFilterTags_get_filter_list self =
     (case DeploymentFilterTags.all self of None \<Rightarrow> []
      | Some vs \<Rightarrow> [json_has_all_keys Deployment.tags vs]) @
     (case DeploymentFilterTags.is_null self of None \<Rightarrow> []
      | Some b \<Rightarrow>
          [if b then col_eq (not_null Deployment.tags) []
           else col_ne (not_null Deployment.tags) []])"

record DeploymentFilter =
  id :: "DeploymentFilterId option"
  name :: "DeploymentFilterName option"
  is_schedule_active :: "DeploymentFilterIsScheduleActive option"
  tags :: "DeploymentFilterTags option"

definition DeploymentFilter_get_filter_list :: "DeploymentFilter \<Rightarrow> Deployment clause list" where
  "DeploymentFilter_get_filter_list self =
     (case DeploymentFilter.id self of None \<Rightarrow> []
      | Some f \<Rightarrow> [as_sql_filter (DeploymentFilterId_get_filter_list f)]) @
     (case DeploymentFilter.name self of None \<Rightarrow> []
      | Some f \<Rightarrow> [as_sql_filter (DeploymentFilterName_get_filter_list f)]) @
     (case DeploymentFilter.is_schedule_active self of None \<Rightarrow> []
      | Some f \<Rightarrow> [as_sql_filter (DeploymentFilterIsScheduleActive_get_filter_list f)]) @
     (case DeploymentFilter.tags self of None \<Rightarrow> []
      | Some f \<Rightarrow> [as_sql_filter (DeploymentFilterTags_get_filter_list f)])"

subsection \<open>BaseFilterCriteria\<close>

text \<open>
  The criteria classes hold one filter per entity kind; each default factory builds the
  filter with every slot unset.
\<close>

record BaseFilterCriteria =
  flow_filter :: FlowFilter
  flow_run_filter :: FlowRunFilter
  task_run_filter :: TaskRunFilter
  deployment_filter :: DeploymentFilter

definition FlowFilter_default :: FlowFilter where
  "FlowFilter_default = \<lparr>FlowFilter.id = None, name = None, tags = None\<rparr>"

definition FlowRunFilter_default :: FlowRunFilter where
  "FlowRunFilter_default =
     \<lparr>FlowRunFilter.id = None, name = None, tags = None, deployment_id = None, state = None,
      flow_version = None, start_time = None, expected_start_time = None,
      next_scheduled_start_time = None, parent_task_run_id = None\<rparr>"

definition TaskRunFilter_default :: TaskRunFilter where
  "TaskRunFilter_default =
     \<lparr>TaskRunFilter.id = None, name = None, tags = None, state = None, start_time = None,
      subflow_runs = None\<rparr>"

definition DeploymentFilter_default :: DeploymentFilter where
  "DeploymentFilter_default =
     \<lparr>DeploymentFilter.id = None, name = None, is_schedule_active = None, tags = None\<rparr>"

definition BaseFilterCriteria_default :: BaseFilterCriteria where
  "BaseFilterCriteria_default =
     \<lparr>flow_filter = FlowFilter_default, flow_run_filter = FlowRunFilter_default,
      task_run_filter = TaskRunFilter_default, deployment_filter = DeploymentFilter_default\<rparr>"

section \<open>scheduler.py\<close>

subsection \<open>Settings, errors and collaborators\<close>

text \<open>
  The attributes of \<open>Scheduler\<close> that \<open>run_once\<close> reads, and the module-level setting
  \<open>scheduler_insert_batch_size\<close>. The sizes are counts; what the database does with a
  negative LIMIT is outside the source and is not modelled. \<open>loop_seconds\<close> is read by
  the host loop only.
\<close>

record Scheduler =
  deployment_batch_size :: nat
  max_runs :: nat
  max_scheduled_time :: timedelta
  scheduler_insert_batch_size :: nat

text \<open>
  \<open>IndexError\<close> is what \<open>deployments[-1]\<close> raises on an empty list; any exception
  that a collaborator raises is a \<open>CollaboratorError\<close>.
\<close>

datatype error = IndexError | CollaboratorError string

text \<open>
  \<open>models.deployments._generate_scheduled_flow_runs\<close> and
  \<open>models.deployments._insert_scheduled_flow_runs\<close> are not among the source files;
  \<open>run_once\<close> takes them as parameters. Both receive the session, of type \<open>'s\<close>: the
  run table as the open transaction sees it. The generator reads it and returns run
  specifications of type \<open>'r\<close> or raises; the insert returns the new session with the runs
  it has inserted, or raises. \<open>session.flush()\<close> sends pending rows to the database inside
  the transaction and changes nothing that the session sees.
\<close>

type_synonym ('s, 'r) generator =
  "'s \<Rightarrow> uuid \<Rightarrow> datetime \<Rightarrow> datetime \<Rightarrow> nat \<Rightarrow> error + 'r list"
type_synonym ('s, 'r) inserter = "'s \<Rightarrow> 'r list \<Rightarrow> error + 's \<times> 'r list"

subsection \<open>The page query\<close>

text \<open>
  \<open>.unique()\<close> drops an object that the result has produced before. The identity map
  gives one object per primary key, so a row is dropped if its key was seen.
\<close>

fun unique_on :: "('a \<Rightarrow> 'k) \<Rightarrow> 'k list \<Rightarrow> 'a list \<Rightarrow> 'a list" where
  "unique_on key seen [] = []"
| "unique_on key seen (x # xs) =
     (if key x \<in> set seen then unique_on key seen xs
      else x # unique_on key (key x # seen) xs)"

text \<open>The two conditions of \<open>.where(...)\<close>: \<open>is_schedule_active IS TRUE\<close>, \<open>schedule IS NOT NULL\<close>.\<close>

definition schedulable :: "Deployment \<Rightarrow> bool" where
  "schedulable d \<longleftrightarrow> Deployment.is_schedule_active d \<and> Deployment.schedule d \<noteq> None"

text \<open>
  \<open>if last_id: query = query.where(Deployment.id > last_id)\<close>. The test is Python's truth
  value of the identifier, which depends on the class that the ORM returns for the column;
  it is the parameter \<open>truthy\<close>. A \<open>uuid.UUID\<close> object is always true.
\<close>

definition after_cursor :: "(uuid \<Rightarrow> bool) \<Rightarrow> uuid option \<Rightarrow> Deployment \<Rightarrow> bool" where
  "after_cursor truthy last_id d =
     (case last_id of None \<Rightarrow> True
      | Some c \<Rightarrow> if truthy c then c < Deployment.id d else True)"

text \<open>
  The rows of the deployment table that pass the conditions, ordered by identifier, cut at
  the limit, then \<open>.scalars().unique().all()\<close>.
\<close>

definition page_query ::
  "(uuid \<Rightarrow> bool) \<Rightarrow> nat \<Rightarrow> uuid option \<Rightarrow> Deployment list \<Rightarrow> Deployment list" where
  "page_query truthy batch_size last_id table =
     unique_on Deployment.id []
       (take batch_size
         (sort_key Deployment.id
           (filter (\<lambda>d. schedulable d \<and> after_cursor truthy last_id d) table)))"

subsection \<open>One page\<close>

text \<open>\<open>for deployment in deployments: runs = await generate(...); all_runs.extend(runs)\<close>\<close>

fun collect_runs ::
  "('s, 'r) generator \<Rightarrow> 's \<Rightarrow> Scheduler \<Rightarrow> datetime \<Rightarrow> Deployment list \<Rightarrow> 'r list
     \<Rightarrow> error + 'r list" where
  "collect_runs gen session self now [] all_runs = Inr all_runs"
| "collect_runs gen session self now (deployment # deployments) all_runs =
     (case gen session (Deployment.id deployment) now (now + max_scheduled_time self)
             (max_runs self) of
        Inl e \<Rightarrow> Inl e
      | Inr runs \<Rightarrow> collect_runs gen session self now deployments (all_runs @ runs))"

text \<open>
  Modelled from the spec: \<open>batched_iterable\<close> of \<open>prefect.utilities.collections\<close> is not
  among the source files. The spec: split the accumulated candidates into chunks of at
  most \<open>insert_batch_size\<close>. The chunks are cut from the front, each full but the last.
  The spec says nothing for a size of zero; the model then yields no chunk.
\<close>

function batched_iterable :: "'a list \<Rightarrow> nat \<Rightarrow> 'a list list" where
  "batched_iterable xs n =
     (if n = 0 \<or> xs = [] then [] else take n xs # batched_iterable (drop n xs) n)"
  by pat_completeness auto
termination
  by (relation "measure (\<lambda>(xs, n). length xs)") auto

declare batched_iterable.simps [simp del]

text \<open>
  \<open>for batch in batches: inserted_runs = await insert(session, batch);
  await session.flush(); total_inserted_runs += len(inserted_runs)\<close>
\<close>

fun insert_batches ::
  "('s, 'r) inserter \<Rightarrow> 's \<Rightarrow> nat \<Rightarrow> 'r list list \<Rightarrow> error + 's \<times> nat" where
  "insert_batches ins session total_inserted_runs [] = Inr (session, total_inserted_runs)"
| "insert_batches ins session total_inserted_runs (batch # batches) =
     (case ins session batch of
        Inl e \<Rightarrow> Inl e
      | Inr (session', inserted_runs) \<Rightarrow>
          insert_batches ins session' (total_inserted_runs + length inserted_runs) batches)"

text \<open>The body of the \<open>while\<close> loop between the query and the exit test.\<close>

definition process_page ::
  "Scheduler \<Rightarrow> ('s, 'r) generator \<Rightarrow> ('s, 'r) inserter \<Rightarrow> datetime \<Rightarrow> 's \<Rightarrow> nat
     \<Rightarrow> Deployment list \<Rightarrow> error + 's \<times> nat" where
  "process_page self gen ins now session total_inserted_runs deployments =
     (case collect_runs gen session self now deployments [] of
        Inl e \<Rightarrow> Inl e
      | Inr all_runs \<Rightarrow>
          insert_batches ins session total_inserted_runs
            (batched_iterable all_runs (scheduler_insert_batch_size self)))"

subsection \<open>The loop and the transaction\<close>

text \<open>
  \<open>while True\<close>: the loop may run forever, so its result is an \<open>option\<close>, \<open>None\<close> for
  no return. \<open>table\<close> is the deployment table, which the invocation does not write. The
  last argument collects the pages fetched so far; the source does not keep them, the
  statements about pagination read them. \<open>deployments[-1]\<close> raises on an empty page.
\<close>

partial_function (option) run_once_loop ::
  "Scheduler \<Rightarrow> (uuid \<Rightarrow> bool) \<Rightarrow> ('s, 'r) generator \<Rightarrow> ('s, 'r) inserter \<Rightarrow> Deployment list
     \<Rightarrow> datetime \<Rightarrow> uuid option \<Rightarrow> 's \<Rightarrow> nat \<Rightarrow> Deployment list list
     \<Rightarrow> (error + 's \<times> nat \<times> Deployment list list) option" where
  "run_once_loop self truthy gen ins table now last_id session total_inserted_runs pages =
     (let deployments = page_query truthy (deployment_batch_size self) last_id table in
      case process_page self gen ins now session total_inserted_runs deployments of
        Inl e \<Rightarrow> Some (Inl e)
      | Inr (session', total') \<Rightarrow>
          if length deployments < deployment_batch_size self
          then Some (Inr (session', total', pages @ [deployments]))
          else if deployments = [] then Some (Inl IndexError)
          else run_once_loop self truthy gen ins table now
                 (Some (Deployment.id (last deployments))) session' total'
                 (pages @ [deployments]))"

text \<open>
  \<open>async with session.begin()\<close>: the transaction starts from the committed run table
  \<open>db\<close>; leaving the block normally commits what the session holds, leaving it by an
  exception rolls back and lets the exception through. \<open>now\<close> is captured once by the
  caller of the loop. The result is the committed table afterwards with the error raised
  or the total that \<open>logger.info\<close> reports.
\<close>

definition run_once ::
  "Scheduler \<Rightarrow> (uuid \<Rightarrow> bool) \<Rightarrow> ('s, 'r) generator \<Rightarrow> ('s, 'r) inserter \<Rightarrow> Deployment list
     \<Rightarrow> datetime \<Rightarrow> 's \<Rightarrow> ('s \<times> (error + nat)) option" where
  "run_once self truthy gen ins table now db =
     (case run_once_loop self truthy gen ins table now None db 0 [] of
        None \<Rightarrow> None
      | Some (Inl e) \<Rightarrow> Some (db, Inl e)
      | Some (Inr (session, total_inserted_runs, pages)) \<Rightarrow>
          Some (session, Inr total_inserted_runs))"


section \<open>Notions of the specification\<close>

text \<open>A slot of a composite filter: absent, it constrains nothing; present, its compiled
  clause must select the entity.\<close>

definition slot_selects :: "'f option \<Rightarrow> ('f \<Rightarrow> 'e clause list) \<Rightarrow> 'e \<Rightarrow> bool" where
  "slot_selects slot get_filter_list e =
     (case slot of None \<Rightarrow> True | Some f \<Rightarrow> selects (as_sql_filter (get_filter_list f)) e)"

text \<open>The spec's page count for \<open>n\<close> rows at page size \<open>p\<close>: the ceiling of \<open>n / p\<close>.\<close>

definition ceil_div :: "nat \<Rightarrow> nat \<Rightarrow> nat" where
  "ceil_div n p = (n + p - 1) div p"

text \<open>
  The pages of a cursor pagination over the rows \<open>xs\<close> at page size \<open>p\<close>: full pages
  from the front up to and including the first page that is short.
\<close>

function expected_pages :: "nat \<Rightarrow> 'a list \<Rightarrow> 'a list list" where
  "expected_pages p xs =
     (if p = 0 \<or> length xs < p then [xs] else take p xs # expected_pages p (drop p xs))"
  by pat_completeness auto
termination
  by (relation "measure (\<lambda>(p, xs). length xs)") auto

declare expected_pages.simps [simp del]

text \<open>
  The precondition on the generator: its result does not depend on the session, so it is
  the same whenever the deployment, the window and the cap are.
\<close>

definition deterministic :: "('s, 'r) generator \<Rightarrow> bool" where
  "deterministic gen \<longleftrightarrow> (\<forall>s s'. gen s = gen s')"

text \<open>
  The precondition on the insert, for a run table that is the list of its rows: it never
  raises, it appends the runs it reports, which are runs of the batch; afterwards every
  key of the batch is in the table, and a batch whose keys are all there inserts nothing.
\<close>

definition deduplicates_on :: "('r \<Rightarrow> 'k) \<Rightarrow> ('r list, 'r) inserter \<Rightarrow> bool" where
  "deduplicates_on key ins \<longleftrightarrow>
     (\<forall>table batch. \<exists>inserted.
        ins table batch = Inr (table @ inserted, inserted) \<and>
        set inserted \<subseteq> set batch \<and>
        key ` set batch \<subseteq> key ` set (table @ inserted) \<and>
        (key ` set batch \<subseteq> key ` set table \<longrightarrow> inserted = []))"

text \<open>
  Modelled from the spec: a run specification with the pair that the insert keeps unique,
  and the bulk insert of the spec's external interfaces: it returns the subset of the
  runs actually inserted, enforces uniqueness on (deployment_id, scheduled_time), never
  errors on duplicates and omits them.
\<close>

record RunSpec =
  deployment_id :: uuid
  scheduled_time :: datetime
  name :: string

definition run_key :: "RunSpec \<Rightarrow> uuid \<times> datetime" where
  "run_key r = (RunSpec.deployment_id r, RunSpec.scheduled_time r)"

definition insert_runs :: "(RunSpec list, RunSpec) inserter" where
  "insert_runs table run_specs =
     (let inserted = unique_on run_key (map run_key table) run_specs
      in Inr (table @ inserted, inserted))"

text \<open>
  An insert that also records each batch it is offered, in order, beside the session of
  the insert it wraps; the generator it is used with reads the wrapped session.
\<close>

definition recording :: "('s, 'r) inserter \<Rightarrow> ('s \<times> 'r list list, 'r) inserter" where
  "recording ins =
     (\<lambda>(session, offered) batch.
        case ins session batch of
          Inl e \<Rightarrow> Inl e
        | Inr (session', inserted) \<Rightarrow> Inr ((session', offered @ [batch]), inserted))"

definition on_session :: "('s, 'r) generator \<Rightarrow> ('s \<times> 'r list list, 'r) generator" where
  "on_session gen = (\<lambda>(session, offered). gen session)"

text \<open>
  The runs that the generator returns for one deployment of a page, none if it raises.
\<close>

definition candidates ::
  "('s, 'r) generator \<Rightarrow> 's \<Rightarrow> Scheduler \<Rightarrow> datetime \<Rightarrow> Deployment \<Rightarrow> 'r list" where
  "candidates gen session self now d =
     (case gen session (Deployment.id d) now (now + max_scheduled_time self) (max_runs self) of
        Inl e \<Rightarrow> [] | Inr runs \<Rightarrow> runs)"

text \<open>The deployments with an active, non-null schedule, in ascending identifier order.\<close>

definition schedulable_in_order :: "Deployment list \<Rightarrow> Deployment list" where
  "schedulable_in_order table = sort_key Deployment.id (filter schedulable table)"

section \<open>Sample values\<close>

text \<open>Python's truth value of a \<open>uuid.UUID\<close> object: the class defines neither
  \<open>__bool__\<close> nor \<open>__len__\<close>.\<close>

definition uuid_truthy :: "uuid \<Rightarrow> bool" where
  "uuid_truthy u = True"

definition flow1 :: Flow where
  "flow1 = \<lparr>Flow.id = 1, name = ''etl'', tags = []\<rparr>"

definition flow2 :: Flow where
  "flow2 = \<lparr>Flow.id = 2, name = ''report'', tags = [''prod'', ''nightly'']\<rparr>"

definition flow_run1 :: FlowRun where
  "flow_run1 =
     \<lparr>FlowRun.id = 7, flow_id = 2, name = ''run'', tags = [''prod''], deployment_id = None,
      state_type = None, state = None, flow_version = None, start_time = Some 5,
      expected_start_time = Some 5, next_scheduled_start_time = None,
      parent_task_run_id = None\<rparr>"

definition task_run1 :: TaskRun where
  "task_run1 =
     \<lparr>TaskRun.id = 9, flow_run_id = 7, name = ''task'', tags = [], state_type = None,
      state = None, start_time = Some 12, subflow_run = None\<rparr>"

definition flow_run_filter1 :: FlowRunFilter where
  "flow_run_filter1 =
     \<lparr>FlowRunFilter.id = None,
      name = Some \<lparr>FlowRunFilterName.any = Some [''run'', ''other'']\<rparr>,
      tags = Some \<lparr>FlowRunFilterTags.all = Some [''prod''], is_null = None\<rparr>,
      deployment_id = None, state = None, flow_version = None, start_time = None,
      expected_start_time = None, next_scheduled_start_time = None,
      parent_task_run_id = None\<rparr>"

definition sample_deployment :: "uuid \<Rightarrow> Deployment" where
  "sample_deployment i =
     \<lparr>Deployment.id = i, name = ''nightly'', tags = [], schedule = Some ''every hour'',
      is_schedule_active = True\<rparr>"

definition seven_deployments :: "Deployment list" where
  "seven_deployments = map sample_deployment [30, 10, 70, 20, 50, 40, 60]"

definition sample_scheduler :: "nat \<Rightarrow> nat \<Rightarrow> Scheduler" where
  "sample_scheduler page_size insert_size =
     \<lparr>deployment_batch_size = page_size, max_runs = 5, max_scheduled_time = 3,
      scheduler_insert_batch_size = insert_size\<rparr>"

definition sample_run :: "uuid \<Rightarrow> datetime \<Rightarrow> RunSpec" where
  "sample_run i t = \<lparr>RunSpec.deployment_id = i, scheduled_time = t, name = ''scheduled''\<rparr>"

text \<open>Three generators: one with no due run, one with two runs in the window, one that
  raises for one deployment.\<close>

definition no_runs :: "(RunSpec list, RunSpec) generator" where
  "no_runs session i window_start window_end n = Inr []"

definition hourly :: "('s, RunSpec) generator" where
  "hourly session i window_start window_end n =
     Inr (take n [sample_run i (window_start + 1), sample_run i (window_start + 2)])"

definition failing_on :: "uuid \<Rightarrow> ('s, RunSpec) generator" where
  "failing_on bad session i window_start window_end n =
     (if i = bad then Inl (CollaboratorError ''no schedule'')
      else hourly session i window_start window_end n)"

section \<open>The predicate compiler\<close>

subsection \<open>Conjunctions of clauses\<close>

lemma sql_true_iff: "(x = Some True) \<longleftrightarrow> (x \<noteq> Some False \<and> x \<noteq> None)"
  by (cases x) auto

lemma selects_sa_and: "selects (sa_and cs) e \<longleftrightarrow> (\<forall>c\<in>set cs. selects c e)"
  unfolding selects_def sa_and_def list_ex_iff by (auto simp: sql_true_iff)

lemma selects_as_sql_filter: "selects (as_sql_filter cs) e \<longleftrightarrow> (\<forall>c\<in>set cs. selects c e)"
  by (simp add: as_sql_filter_def selects_sa_and) (simp add: selects_def sa_true_def)

lemma sa_and_set_cong: "set cs = set ds \<Longrightarrow> sa_and cs e = sa_and ds e"
  by (simp add: sa_and_def list_ex_iff)

lemma as_sql_filter_eq_sa_and: "as_sql_filter cs e = sa_and cs e"
  by (simp add: as_sql_filter_def sa_and_def sa_true_def)

lemma as_sql_filter_perm: "mset cs = mset ds \<Longrightarrow> as_sql_filter cs e = as_sql_filter ds e"
proof -
  assume "mset cs = mset ds"
  then have "set cs = set ds" by (rule mset_eq_setD)
  then have "sa_and cs e = sa_and ds e" by (rule sa_and_set_cong)
  then show ?thesis by (simp only: as_sql_filter_eq_sa_and)
qed

lemma as_sql_filter_Nil: "as_sql_filter [] = sa_true"
  by (rule ext) (simp add: as_sql_filter_def sa_and_def sa_true_def)

lemma selects_sa_true: "selects sa_true e"
  by (simp add: selects_def sa_true_def)

lemma selects_col_in_Nil: "\<not> selects (col_in col []) e"
  by (simp add: selects_def col_in_def split: option.splits)

lemma selects_rel_has_col_in_Nil: "\<not> selects (rel_has rel (col_in col [])) e"
  by (simp add: selects_def rel_has_def col_in_def split: option.splits)

lemma selects_as_sql_filter_append:
  "selects (as_sql_filter (cs @ ds)) e \<longleftrightarrow>
     selects (as_sql_filter cs) e \<and> selects (as_sql_filter ds) e"
  by (auto simp add: selects_as_sql_filter)

lemma selects_as_sql_filter_slot:
  "selects (as_sql_filter (case slot of None \<Rightarrow> [] | Some f \<Rightarrow> [as_sql_filter (g f)])) e
     \<longleftrightarrow> slot_selects slot g e"
  by (cases slot) (simp_all add: slot_selects_def selects_as_sql_filter)

lemmas leaf_defs =
  FlowFilterId_get_filter_list_def FlowFilterName_get_filter_list_def
  FlowFilterTags_get_filter_list_def
  FlowRunFilterId_get_filter_list_def FlowRunFilterName_get_filter_list_def
  FlowRunFilterTags_get_filter_list_def FlowRunFilterDeploymentId_get_filter_list_def
  FlowRunFilterStateType_get_filter_list_def FlowRunFilterStateName_get_filter_list_def
  FlowRunFilterState_get_filter_list_def FlowRunFilterFlowVersion_get_filter_list_def
  FlowRunFilterStartTime_get_filter_list_def FlowRunFilterExpectedStartTime_get_filter_list_def
  FlowRunFilterNextScheduledStartTime_get_filter_list_def
  FlowRunFilterParentTaskRunId_get_filter_list_def
  TaskRunFilterId_get_filter_list_def TaskRunFilterName_get_filter_list_def
  TaskRunFilterTags_get_filter_list_def TaskRunFilterStateType_get_filter_list_def
  TaskRunFilterStateName_get_filter_list_def TaskRunFilterState_get_filter_list_def
  TaskRunFilterSubFlowRuns_get_filter_list_def TaskRunFilterStartTime_get_filter_list_def
  DeploymentFilterId_get_filter_list_def DeploymentFilterName_get_filter_list_def
  DeploymentFilterIsScheduleActive_get_filter_list_def DeploymentFilterTags_get_filter_list_def

lemmas composite_defs =
  FlowFilter_get_filter_list_def FlowRunFilter_get_filter_list_def
  TaskRunFilter_get_filter_list_def DeploymentFilter_get_filter_list_def

lemma unset_flow:
  "as_sql_filter (FlowFilterId_get_filter_list \<lparr>FlowFilterId.any = None\<rparr>) = sa_true"
  "as_sql_filter (FlowFilterName_get_filter_list \<lparr>FlowFilterName.any = None\<rparr>) = sa_true"
  "as_sql_filter (FlowFilterTags_get_filter_list \<lparr>FlowFilterTags.all = None, is_null = None\<rparr>)
     = sa_true"
  "as_sql_filter (FlowFilter_get_filter_list \<lparr>FlowFilter.id = None, name = None, tags = None\<rparr>)
     = sa_true"
  by (simp_all add: leaf_defs composite_defs as_sql_filter_Nil)

lemma unset_flow_run:
  "as_sql_filter (FlowRunFilterId_get_filter_list \<lparr>FlowRunFilterId.any = None, not_any = None\<rparr>)
     = sa_true"
  "as_sql_filter (FlowRunFilterName_get_filter_list \<lparr>FlowRunFilterName.any = None\<rparr>) = sa_true"
  "as_sql_filter (FlowRunFilterTags_get_filter_list
     \<lparr>FlowRunFilterTags.all = None, is_null = None\<rparr>) = sa_true"
  "as_sql_filter (FlowRunFilterDeploymentId_get_filter_list
     \<lparr>FlowRunFilterDeploymentId.any = None, is_null = None\<rparr>) = sa_true"
  "as_sql_filter (FlowRunFilterStateType_get_filter_list \<lparr>FlowRunFilterStateType.any = None\<rparr>)
     = sa_true"
  "as_sql_filter (FlowRunFilterStateName_get_filter_list \<lparr>FlowRunFilterStateName.any = None\<rparr>)
     = sa_true"
  "as_sql_filter (FlowRunFilterState_get_filter_list
     \<lparr>FlowRunFilterState.type = None, name = None\<rparr>) = sa_true"
  "as_sql_filter (FlowRunFilterFlowVersion_get_filter_list
     \<lparr>FlowRunFilterFlowVersion.any = None\<rparr>) = sa_true"
  "as_sql_filter (FlowRunFilterStartTime_get_filter_list
     \<lparr>FlowRunFilterStartTime.before = None, after = None, is_null = None\<rparr>) = sa_true"
  "as_sql_filter (FlowRunFilterExpectedStartTime_get_filter_list
     \<lparr>FlowRunFilterExpectedStartTime.before = None, after = None\<rparr>) = sa_true"
  "as_sql_filter (FlowRunFilterNextScheduledStartTime_get_filter_list
     \<lparr>FlowRunFilterNextScheduledStartTime.before = None, after = None\<rparr>) = sa_true"
  "as_sql_filter (FlowRunFilterParentTaskRunId_get_filter_list
     \<lparr>FlowRunFilterParentTaskRunId.any = None, is_null = None\<rparr>) = sa_true"
  "as_sql_filter (FlowRunFilter_get_filter_list
     \<lparr>FlowRunFilter.id = None, name = None, tags = None, deployment_id = None, state = None,
      flow_version = None, start_time = None, expected_start_time = None,
      next_scheduled_start_time = None, parent_task_run_id = None\<rparr>) = sa_true"
  by (simp_all add: leaf_defs composite_defs as_sql_filter_Nil)

lemma unset_task_run:
  "as_sql_filter (TaskRunFilterId_get_filter_list \<lparr>TaskRunFilterId.any = None\<rparr>) = sa_true"
  "as_sql_filter (TaskRunFilterName_get_filter_list \<lparr>TaskRunFilterName.any = None\<rparr>) = sa_true"
  "as_sql_filter (TaskRunFilterTags_get_filter_list
     \<lparr>TaskRunFilterTags.all = None, is_null = None\<rparr>) = sa_true"
  "as_sql_filter (TaskRunFilterStateType_get_filter_list \<lparr>TaskRunFilterStateType.any = None\<rparr>)
     = sa_true"
  "as_sql_filter (TaskRunFilterStateName_get_filter_list \<lparr>TaskRunFilterStateName.any = None\<rparr>)
     = sa_true"
  "as_sql_filter (TaskRunFilterState_get_filter_list
     \<lparr>TaskRunFilterState.type = None, name = None\<rparr>) = sa_true"
  "as_sql_filter (TaskRunFilterSubFlowRuns_get_filter_list
     \<lparr>TaskRunFilterSubFlowRuns.exists = None\<rparr>) = sa_true"
  "as_sql_filter (TaskRunFilterStartTime_get_filter_list
     \<lparr>TaskRunFilterStartTime.before = None, after = None, is_null = None\<rparr>) = sa_true"
  "as_sql_filter (TaskRunFilter_get_filter_list
     \<lparr>TaskRunFilter.id = None, name = None, tags = None, state = None, start_time = None,
      subflow_runs = None\<rparr>) = sa_true"
  by (simp_all add: leaf_defs composite_defs as_sql_filter_Nil)

lemma unset_deployment:
  "as_sql_filter (DeploymentFilterId_get_filter_list \<lparr>DeploymentFilterId.any = None\<rparr>) = sa_true"
  "as_sql_filter (DeploymentFilterName_get_filter_list \<lparr>DeploymentFilterName.any = None\<rparr>)
     = sa_true"
  "as_sql_filter (DeploymentFilterIsScheduleActive_get_filter_list
     \<lparr>DeploymentFilterIsScheduleActive.eq = None\<rparr>) = sa_true"
  "as_sql_filter (DeploymentFilterTags_get_filter_list
     \<lparr>DeploymentFilterTags.all = None, is_null = None\<rparr>) = sa_true"
  "as_sql_filter (DeploymentFilter_get_filter_list
     \<lparr>DeploymentFilter.id = None, name = None, is_schedule_active = None, tags = None\<rparr>)
     = sa_true"
  by (simp_all add: leaf_defs composite_defs as_sql_filter_Nil)

lemma unset_criteria:
  "as_sql_filter (FlowFilter_get_filter_list (flow_filter BaseFilterCriteria_default)) = sa_true"
  "as_sql_filter (FlowRunFilter_get_filter_list (flow_run_filter BaseFilterCriteria_default))
     = sa_true"
  "as_sql_filter (TaskRunFilter_get_filter_list (task_run_filter BaseFilterCriteria_default))
     = sa_true"
  "as_sql_filter (DeploymentFilter_get_filter_list (deployment_filter BaseFilterCriteria_default))
     = sa_true"
  by (simp_all add: BaseFilterCriteria_default_def FlowFilter_default_def
      FlowRunFilter_default_def TaskRunFilter_default_def DeploymentFilter_default_def
      unset_flow unset_flow_run unset_task_run unset_deployment)

lemma selects_tags_clauses:
  "selects (col_eq (not_null col) []) e \<longleftrightarrow> col e = []"
  "selects (col_ne (not_null col) []) e \<longleftrightarrow> col e \<noteq> []"
  "selects (json_has_all_keys col vs) e \<longleftrightarrow> set vs \<subseteq> set (col e)"
  by (simp_all add: selects_def col_eq_def col_ne_def not_null_def json_has_all_keys_def)

subsection \<open>Claims about filters\<close>

text \<open>
  A membership field set to the empty list is not an absent field: the guard of
  \<open>_get_filter_list\<close> is \<open>is not None\<close>, so \<open>id IN ()\<close> is appended. On the flow
  \<open>flow1\<close> the absent field selects and the empty list does not.
\<close>

theorem empty_any_counterexample:
  "selects (as_sql_filter (FlowFilterId_get_filter_list \<lparr>FlowFilterId.any = None\<rparr>)) flow1 \<and>
   \<not> selects (as_sql_filter (FlowFilterId_get_filter_list \<lparr>FlowFilterId.any = Some []\<rparr>)) flow1"
  by (simp add: selects_as_sql_filter FlowFilterId_get_filter_list_def selects_col_in_Nil)

text \<open>
  C2, as the code has it. For every membership (\<open>any_\<close>) field set to the empty list, in
  each of the fifteen leaf filters that have one and whatever the leaf's other fields
  hold, the compiled predicate selects no entity. Only an absent field imposes no
  constraint (C3).
\<close>

theorem empty_any_selects_nothing:
  "\<not> selects (as_sql_filter (FlowFilterId_get_filter_list (f1\<lparr>FlowFilterId.any := Some []\<rparr>))) fl \<and>
   \<not> selects (as_sql_filter (FlowFilterName_get_filter_list (f2\<lparr>FlowFilterName.any := Some []\<rparr>))) fl \<and>
   \<not> selects (as_sql_filter (FlowRunFilterId_get_filter_list (f3\<lparr>FlowRunFilterId.any := Some []\<rparr>))) fr \<and>
   \<not> selects (as_sql_filter (FlowRunFilterName_get_filter_list (f4\<lparr>FlowRunFilterName.any := Some []\<rparr>))) fr \<and>
   \<not> selects (as_sql_filter (FlowRunFilterDeploymentId_get_filter_list
         (f5\<lparr>FlowRunFilterDeploymentId.any := Some []\<rparr>))) fr \<and>
   \<not> selects (as_sql_filter (FlowRunFilterStateType_get_filter_list
         (f6\<lparr>FlowRunFilterStateType.any := Some []\<rparr>))) fr \<and>
   \<not> selects (as_sql_filter (FlowRunFilterStateName_get_filter_list
         (f7\<lparr>FlowRunFilterStateName.any := Some []\<rparr>))) fr \<and>
   \<not> selects (as_sql_filter (FlowRunFilterFlowVersion_get_filter_list
         (f8\<lparr>FlowRunFilterFlowVersion.any := Some []\<rparr>))) fr \<and>
   \<not> selects (as_sql_filter (FlowRunFilterParentTaskRunId_get_filter_list
         (f9\<lparr>FlowRunFilterParentTaskRunId.any := Some []\<rparr>))) fr \<and>
   \<not> selects (as_sql_filter (TaskRunFilterId_get_filter_list (f10\<lparr>TaskRunFilterId.any := Some []\<rparr>))) tr \<and>
   \<not> selects (as_sql_filter (TaskRunFilterName_get_filter_list
         (f11\<lparr>TaskRunFilterName.any := Some []\<rparr>))) tr \<and>
   \<not> selects (as_sql_filter (TaskRunFilterStateType_get_filter_list
         (f12\<lparr>TaskRunFilterStateType.any := Some []\<rparr>))) tr \<and>
   \<not> selects (as_sql_filter (TaskRunFilterStateName_get_filter_list
         (f13\<lparr>TaskRunFilterStateName.any := Some []\<rparr>))) tr \<and>
   \<not> selects (as_sql_filter (DeploymentFilterId_get_filter_list
         (f14\<lparr>DeploymentFilterId.any := Some []\<rparr>))) d \<and>
   \<not> selects (as_sql_filter (DeploymentFilterName_get_filter_list
         (f15\<lparr>DeploymentFilterName.any := Some []\<rparr>))) d"
  by (simp add: selects_as_sql_filter leaf_defs selects_col_in_Nil selects_rel_has_col_in_Nil)

theorem empty_any_selects_nothing_witness:
  "\<not> selects (as_sql_filter (FlowFilterId_get_filter_list \<lparr>FlowFilterId.any = Some []\<rparr>)) flow1"
  using empty_any_selects_nothing [of "\<lparr>FlowFilterId.any = None\<rparr>" flow1, THEN conjunct1]
  by simp

text \<open>
  C3. A leaf or composite filter with every operator field and every child slot unset
  compiles to the constant true predicate, which selects every entity: each of the
  twenty-seven leaves and state filters, the four composite filters, and the four filters
  that the default factories of \<open>BaseFilterCriteria\<close> build.
\<close>

theorem all_unset_filter_is_true:
  "selects sa_true e \<and>
   as_sql_filter (FlowFilterId_get_filter_list \<lparr>FlowFilterId.any = None\<rparr>) = sa_true \<and>
   as_sql_filter (FlowFilterName_get_filter_list \<lparr>FlowFilterName.any = None\<rparr>) = sa_true \<and>
   as_sql_filter (FlowFilterTags_get_filter_list \<lparr>FlowFilterTags.all = None, is_null = None\<rparr>)
     = sa_true \<and>
   as_sql_filter (FlowFilter_get_filter_list \<lparr>FlowFilter.id = None, name = None, tags = None\<rparr>)
     = sa_true \<and>
   as_sql_filter (FlowRunFilterId_get_filter_list \<lparr>FlowRunFilterId.any = None, not_any = None\<rparr>)
     = sa_true \<and>
   as_sql_filter (FlowRunFilterName_get_filter_list \<lparr>FlowRunFilterName.any = None\<rparr>) = sa_true \<and>
   as_sql_filter (FlowRunFilterTags_get_filter_list
     \<lparr>FlowRunFilterTags.all = None, is_null = None\<rparr>) = sa_true \<and>
   as_sql_filter (FlowRunFilterDeploymentId_get_filter_list
     \<lparr>FlowRunFilterDeploymentId.any = None, is_null = None\<rparr>) = sa_true \<and>
   as_sql_filter (FlowRunFilterStateType_get_filter_list \<lparr>FlowRunFilterStateType.any = None\<rparr>)
     = sa_true \<and>
   as_sql_filter (FlowRunFilterStateName_get_filter_list \<lparr>FlowRunFilterStateName.any = None\<rparr>)
     = sa_true \<and>
   as_sql_filter (FlowRunFilterState_get_filter_list
     \<lparr>FlowRunFilterState.type = None, name = None\<rparr>) = sa_true \<and>
   as_sql_filter (FlowRunFilterFlowVersion_get_filter_list
     \<lparr>FlowRunFilterFlowVersion.any = None\<rparr>) = sa_true \<and>
   as_sql_filter (FlowRunFilterStartTime_get_filter_list
     \<lparr>FlowRunFilterStartTime.before = None, after = None, is_null = None\<rparr>) = sa_true \<and>
   as_sql_filter (FlowRunFilterExpectedStartTime_get_filter_list
     \<lparr>FlowRunFilterExpectedStartTime.before = None, after = None\<rparr>) = sa_true \<and>
   as_sql_filter (FlowRunFilterNextScheduledStartTime_get_filter_list
     \<lparr>FlowRunFilterNextScheduledStartTime.before = None, after = None\<rparr>) = sa_true \<and>
   as_sql_filter (FlowRunFilterParentTaskRunId_get_filter_list
     \<lparr>FlowRunFilterParentTaskRunId.any = None, is_null = None\<rparr>) = sa_true \<and>
   as_sql_filter (FlowRunFilter_get_filter_list
     \<lparr>FlowRunFilter.id = None, name = None, tags = None, deployment_id = None, state = None,
      flow_version = None, start_time = None, expected_start_time = None,
      next_scheduled_start_time = None, parent_task_run_id = None\<rparr>) = sa_true \<and>
   as_sql_filter (TaskRunFilterId_get_filter_list \<lparr>TaskRunFilterId.any = None\<rparr>) = sa_true \<and>
   as_sql_filter (TaskRunFilterName_get_filter_list \<lparr>TaskRunFilterName.any = None\<rparr>) = sa_true \<and>
   as_sql_filter (TaskRunFilterTags_get_filter_list
     \<lparr>TaskRunFilterTags.all = None, is_null = None\<rparr>) = sa_true \<and>
   as_sql_filter (TaskRunFilterStateType_get_filter_list \<lparr>TaskRunFilterStateType.any = None\<rparr>)
     = sa_true \<and>
   as_sql_filter (TaskRunFilterStateName_get_filter_list \<lparr>TaskRunFilterStateName.any = None\<rparr>)
     = sa_true \<and>
   as_sql_filter (TaskRunFilterState_get_filter_list
     \<lparr>TaskRunFilterState.type = None, name = None\<rparr>) = sa_true \<and>
   as_sql_filter (TaskRunFilterSubFlowRuns_get_filter_list
     \<lparr>TaskRunFilterSubFlowRuns.exists = None\<rparr>) = sa_true \<and>
   as_sql_filter (TaskRunFilterStartTime_get_filter_list
     \<lparr>TaskRunFilterStartTime.before = None, after = None, is_null = None\<rparr>) = sa_true \<and>
   as_sql_filter (TaskRunFilter_get_filter_list
     \<lparr>TaskRunFilter.id = None, name = None, tags = None, state = None, start_time = None,
      subflow_runs = None\<rparr>) = sa_true \<and>
   as_sql_filter (DeploymentFilterId_get_filter_list \<lparr>DeploymentFilterId.any = None\<rparr>) = sa_true \<and>
   as_sql_filter (DeploymentFilterName_get_filter_list \<lparr>DeploymentFilterName.any = None\<rparr>)
     = sa_true \<and>
   as_sql_filter (DeploymentFilterIsScheduleActive_get_filter_list
     \<lparr>DeploymentFilterIsScheduleActive.eq = None\<rparr>) = sa_true \<and>
   as_sql_filter (DeploymentFilterTags_get_filter_list
     \<lparr>DeploymentFilterTags.all = None, is_null = None\<rparr>) = sa_true \<and>
   as_sql_filter (DeploymentFilter_get_filter_list
     \<lparr>DeploymentFilter.id = None, name = None, is_schedule_active = None, tags = None\<rparr>)
     = sa_true \<and>
   as_sql_filter (FlowFilter_get_filter_list (flow_filter BaseFilterCriteria_default)) = sa_true \<and>
   as_sql_filter (FlowRunFilter_get_filter_list (flow_run_filter BaseFilterCriteria_default))
     = sa_true \<and>
   as_sql_filter (TaskRunFilter_get_filter_list (task_run_filter BaseFilterCriteria_default))
     = sa_true \<and>
   as_sql_filter (DeploymentFilter_get_filter_list (deployment_filter BaseFilterCriteria_default))
     = sa_true"
  by (simp add: selects_sa_true unset_flow unset_flow_run unset_task_run unset_deployment
      unset_criteria)

theorem all_unset_filter_is_true_witness:
  "selects (as_sql_filter (FlowFilter_get_filter_list (flow_filter BaseFilterCriteria_default)))
     flow1"
proof -
  have "selects (sa_true :: Flow clause) flow1"
    using all_unset_filter_is_true [of flow1, THEN conjunct1] .
  moreover have
    "as_sql_filter (FlowFilter_get_filter_list (flow_filter BaseFilterCriteria_default)) = sa_true"
    using all_unset_filter_is_true [of flow1] by simp
  ultimately show ?thesis by simp
qed

text \<open>
  C6. A range leaf with \<open>before_ = T1\<close> and \<open>after_ = T2\<close> selects exactly the entities
  whose field has a value \<open>t\<close> with \<open>T2 \<le> t \<le> T1\<close>: both bounds inclusive, joined by
  AND, an entity without a value not selected. This holds for the four range leaves; for
  the two that also have \<open>is_null_\<close>, that field is unset or false. The order of the
  bounds is not needed: for \<open>T1 < T2\<close> the interval is empty and nothing is selected.
\<close>

theorem range_leaf_closed_interval:
  assumes "n \<noteq> Some True"
  shows
  "(selects (as_sql_filter (FlowRunFilterStartTime_get_filter_list
        \<lparr>FlowRunFilterStartTime.before = Some T1, after = Some T2, is_null = n\<rparr>)) fr
     \<longleftrightarrow> (\<exists>t. FlowRun.start_time fr = Some t \<and> T2 \<le> t \<and> t \<le> T1)) \<and>
   (selects (as_sql_filter (FlowRunFilterExpectedStartTime_get_filter_list
        \<lparr>FlowRunFilterExpectedStartTime.before = Some T1, after = Some T2\<rparr>)) fr
     \<longleftrightarrow> (\<exists>t. FlowRun.expected_start_time fr = Some t \<and> T2 \<le> t \<and> t \<le> T1)) \<and>
   (selects (as_sql_filter (FlowRunFilterNextScheduledStartTime_get_filter_list
        \<lparr>FlowRunFilterNextScheduledStartTime.before = Some T1, after = Some T2\<rparr>)) fr
     \<longleftrightarrow> (\<exists>t. FlowRun.next_scheduled_start_time fr = Some t \<and> T2 \<le> t \<and> t \<le> T1)) \<and>
   (selects (as_sql_filter (TaskRunFilterStartTime_get_filter_list
        \<lparr>TaskRunFilterStartTime.before = Some T1, after = Some T2, is_null = n\<rparr>)) tr
     \<longleftrightarrow> (\<exists>t. TaskRun.start_time tr = Some t \<and> T2 \<le> t \<and> t \<le> T1))"
proof (intro conjI)
  show "selects (as_sql_filter (FlowRunFilterStartTime_get_filter_list
        \<lparr>FlowRunFilterStartTime.before = Some T1, after = Some T2, is_null = n\<rparr>)) fr
     \<longleftrightarrow> (\<exists>t. FlowRun.start_time fr = Some t \<and> T2 \<le> t \<and> t \<le> T1)"
    using assms
    by (cases n; simp add: selects_as_sql_filter FlowRunFilterStartTime_get_filter_list_def)
       (auto simp add: selects_def col_le_def col_ge_def col_is_not_null_def split: option.splits)
  show "selects (as_sql_filter (FlowRunFilterExpectedStartTime_get_filter_list
        \<lparr>FlowRunFilterExpectedStartTime.before = Some T1, after = Some T2\<rparr>)) fr
     \<longleftrightarrow> (\<exists>t. FlowRun.expected_start_time fr = Some t \<and> T2 \<le> t \<and> t \<le> T1)"
    by (simp add: selects_as_sql_filter FlowRunFilterExpectedStartTime_get_filter_list_def)
       (auto simp add: selects_def col_le_def col_ge_def split: option.splits)
  show "selects (as_sql_filter (FlowRunFilterNextScheduledStartTime_get_filter_list
        \<lparr>FlowRunFilterNextScheduledStartTime.before = Some T1, after = Some T2\<rparr>)) fr
     \<longleftrightarrow> (\<exists>t. FlowRun.next_scheduled_start_time fr = Some t \<and> T2 \<le> t \<and> t \<le> T1)"
    by (simp add: selects_as_sql_filter FlowRunFilterNextScheduledStartTime_get_filter_list_def)
       (auto simp add: selects_def col_le_def col_ge_def split: option.splits)
  show "selects (as_sql_filter (TaskRunFilterStartTime_get_filter_list
        \<lparr>TaskRunFilterStartTime.before = Some T1, after = Some T2, is_null = n\<rparr>)) tr
     \<longleftrightarrow> (\<exists>t. TaskRun.start_time tr = Some t \<and> T2 \<le> t \<and> t \<le> T1)"
    using assms
    by (cases n; simp add: selects_as_sql_filter TaskRunFilterStartTime_get_filter_list_def)
       (auto simp add: selects_def col_le_def col_ge_def col_is_not_null_def split: option.splits)
qed

theorem range_leaf_closed_interval_witness:
  "(None :: bool option) \<noteq> Some True \<and>
   selects (as_sql_filter (FlowRunFilterStartTime_get_filter_list
      \<lparr>FlowRunFilterStartTime.before = Some 10, after = Some 1, is_null = None\<rparr>)) flow_run1 \<and>
   \<not> selects (as_sql_filter (TaskRunFilterStartTime_get_filter_list
      \<lparr>TaskRunFilterStartTime.before = Some 10, after = Some 1, is_null = None\<rparr>)) task_run1"
  using range_leaf_closed_interval [of None 10 1 flow_run1 task_run1]
  by (simp add: flow_run1_def task_run1_def)

text \<open>
  C7. For each of the four tag leaves: with only \<open>is_null_ = true\<close> set it selects
  exactly the entities whose tag list is empty; with only \<open>is_null_ = false\<close> set,
  exactly those with at least one tag; with \<open>all_\<close> and \<open>is_null_ = false\<close> both set it
  selects exactly the entities that the two single-operator leaves both select, that is
  those whose tags contain every listed tag and are not empty.
\<close>

theorem tag_leaf_null_check:
  "(selects (as_sql_filter (FlowFilterTags_get_filter_list \<lparr>FlowFilterTags.all = None, is_null = Some True\<rparr>)) fl
     \<longleftrightarrow> Flow.tags fl = []) \<and>
   (selects (as_sql_filter (FlowFilterTags_get_filter_list \<lparr>FlowFilterTags.all = None, is_null = Some False\<rparr>)) fl
     \<longleftrightarrow> Flow.tags fl \<noteq> []) \<and>
   (selects (as_sql_filter (FlowFilterTags_get_filter_list \<lparr>FlowFilterTags.all = Some vs, is_null = Some False\<rparr>)) fl
     \<longleftrightarrow> selects (as_sql_filter (FlowFilterTags_get_filter_list \<lparr>FlowFilterTags.all = Some vs, is_null = None\<rparr>)) fl \<and>
         selects (as_sql_filter (FlowFilterTags_get_filter_list \<lparr>FlowFilterTags.all = None, is_null = Some False\<rparr>)) fl) \<and>
   (selects (as_sql_filter (FlowFilterTags_get_filter_list \<lparr>FlowFilterTags.all = Some vs, is_null = Some False\<rparr>)) fl
     \<longleftrightarrow> set vs \<subseteq> set (Flow.tags fl) \<and> Flow.tags fl \<noteq> []) \<and>
   (selects (as_sql_filter (FlowRunFilterTags_get_filter_list \<lparr>FlowRunFilterTags.all = None, is_null = Some True\<rparr>)) fr
     \<longleftrightarrow> FlowRun.tags fr = []) \<and>
   (selects (as_sql_filter (FlowRunFilterTags_get_filter_list \<lparr>FlowRunFilterTags.all = None, is_null = Some False\<rparr>)) fr
     \<longleftrightarrow> FlowRun.tags fr \<noteq> []) \<and>
   (selects (as_sql_filter (FlowRunFilterTags_get_filter_list \<lparr>FlowRunFilterTags.all = Some vs, is_null = Some False\<rparr>)) fr
     \<longleftrightarrow> selects (as_sql_filter (FlowRunFilterTags_get_filter_list \<lparr>FlowRunFilterTags.all = Some vs, is_null = None\<rparr>)) fr \<and>
         selects (as_sql_filter (FlowRunFilterTags_get_filter_list \<lparr>FlowRunFilterTags.all = None, is_null = Some False\<rparr>)) fr) \<and>
   (selects (as_sql_filter (FlowRunFilterTags_get_filter_list \<lparr>FlowRunFilterTags.all = Some vs, is_null = Some False\<rparr>)) fr
     \<longleftrightarrow> set vs \<subseteq> set (FlowRun.tags fr) \<and> FlowRun.tags fr \<noteq> []) \<and>
   (selects (as_sql_filter (TaskRunFilterTags_get_filter_list \<lparr>TaskRunFilterTags.all = None, is_null = Some True\<rparr>)) tr
     \<longleftrightarrow> TaskRun.tags tr = []) \<and>
   (selects (as_sql_filter (TaskRunFilterTags_get_filter_list \<lparr>TaskRunFilterTags.all = None, is_null = Some False\<rparr>)) tr
     \<longleftrightarrow> TaskRun.tags tr \<noteq> []) \<and>
   (selects (as_sql_filter (TaskRunFilterTags_get_filter_list \<lparr>TaskRunFilterTags.all = Some vs, is_null = Some False\<rparr>)) tr
     \<longleftrightarrow> selects (as_sql_filter (TaskRunFilterTags_get_filter_list \<lparr>TaskRunFilterTags.all = Some vs, is_null = None\<rparr>)) tr \<and>
         selects (as_sql_filter (TaskRunFilterTags_get_filter_list \<lparr>TaskRunFilterTags.all = None, is_null = Some False\<rparr>)) tr) \<and>
   (selects (as_sql_filter (TaskRunFilterTags_get_filter_list \<lparr>TaskRunFilterTags.all = Some vs, is_null = Some False\<rparr>)) tr
     \<longleftrightarrow> set vs \<subseteq> set (TaskRun.tags tr) \<and> TaskRun.tags tr \<noteq> []) \<and>
   (selects (as_sql_filter (DeploymentFilterTags_get_filter_list \<lparr>DeploymentFilterTags.all = None, is_null = Some True\<rparr>)) d
     \<longleftrightarrow> Deployment.tags d = []) \<and>
   (selects (as_sql_filter (DeploymentFilterTags_get_filter_list \<lparr>DeploymentFilterTags.all = None, is_null = Some False\<rparr>)) d
     \<longleftrightarrow> Deployment.tags d \<noteq> []) \<and>
   (selects (as_sql_filter (DeploymentFilterTags_get_filter_list \<lparr>DeploymentFilterTags.all = Some vs, is_null = Some False\<rparr>)) d
     \<longleftrightarrow> selects (as_sql_filter (DeploymentFilterTags_get_filter_list \<lparr>DeploymentFilterTags.all = Some vs, is_null = None\<rparr>)) d \<and>
         selects (as_sql_filter (DeploymentFilterTags_get_filter_list \<lparr>DeploymentFilterTags.all = None, is_null = Some False\<rparr>)) d) \<and>
   (selects (as_sql_filter (DeploymentFilterTags_get_filter_list \<lparr>DeploymentFilterTags.all = Some vs, is_null = Some False\<rparr>)) d
     \<longleftrightarrow> set vs \<subseteq> set (Deployment.tags d) \<and> Deployment.tags d \<noteq> [])"
  by (simp add: selects_as_sql_filter selects_tags_clauses
      FlowFilterTags_get_filter_list_def FlowRunFilterTags_get_filter_list_def
      TaskRunFilterTags_get_filter_list_def DeploymentFilterTags_get_filter_list_def)

theorem tag_leaf_null_check_witness:
  "selects (as_sql_filter (FlowFilterTags_get_filter_list
      \<lparr>FlowFilterTags.all = None, is_null = Some True\<rparr>)) flow1 \<and>
   \<not> selects (as_sql_filter (FlowFilterTags_get_filter_list
      \<lparr>FlowFilterTags.all = None, is_null = Some True\<rparr>)) flow2 \<and>
   selects (as_sql_filter (FlowFilterTags_get_filter_list
      \<lparr>FlowFilterTags.all = Some [''nightly''], is_null = Some False\<rparr>)) flow2"
  using tag_leaf_null_check [of flow1 "[''nightly'']" flow_run1 task_run1 "sample_deployment 10", THEN conjunct1]
    tag_leaf_null_check [of flow2 "[''nightly'']" flow_run1 task_run1 "sample_deployment 10", THEN conjunct1]
    tag_leaf_null_check [of flow2 "[''nightly'']" flow_run1 task_run1 "sample_deployment 10", THEN conjunct2, THEN conjunct2,
      THEN conjunct2, THEN conjunct1]
  by (simp add: flow1_def flow2_def)

text \<open>
  C8. For each of the four composite filters and every entity: the compiled predicate
  selects the entity iff every present child slot's compiled clause does; its truth value
  is the conjunction of the list that \<open>_get_filter_list\<close> returns; and every
  permutation of that list, that is every order of visiting the slots, compiles to the
  same truth value.
\<close>

theorem composite_is_conjunction_of_present_slots:
  "(selects (as_sql_filter (FlowFilter_get_filter_list ff)) fl \<longleftrightarrow>
      slot_selects (FlowFilter.id ff) FlowFilterId_get_filter_list fl \<and>
      slot_selects (FlowFilter.name ff) FlowFilterName_get_filter_list fl \<and>
      slot_selects (FlowFilter.tags ff) FlowFilterTags_get_filter_list fl) \<and>
   (selects (as_sql_filter (FlowRunFilter_get_filter_list rf)) fr \<longleftrightarrow>
      slot_selects (FlowRunFilter.id rf) FlowRunFilterId_get_filter_list fr \<and>
      slot_selects (FlowRunFilter.name rf) FlowRunFilterName_get_filter_list fr \<and>
      slot_selects (FlowRunFilter.tags rf) FlowRunFilterTags_get_filter_list fr \<and>
      slot_selects (FlowRunFilter.deployment_id rf) FlowRunFilterDeploymentId_get_filter_list fr \<and>
      slot_selects (FlowRunFilter.flow_version rf) FlowRunFilterFlowVersion_get_filter_list fr \<and>
      slot_selects (FlowRunFilter.state rf) FlowRunFilterState_get_filter_list fr \<and>
      slot_selects (FlowRunFilter.start_time rf) FlowRunFilterStartTime_get_filter_list fr \<and>
      slot_selects (FlowRunFilter.expected_start_time rf)
        FlowRunFilterExpectedStartTime_get_filter_list fr \<and>
      slot_selects (FlowRunFilter.next_scheduled_start_time rf)
        FlowRunFilterNextScheduledStartTime_get_filter_list fr \<and>
      slot_selects (FlowRunFilter.parent_task_run_id rf)
        FlowRunFilterParentTaskRunId_get_filter_list fr) \<and>
   (selects (as_sql_filter (TaskRunFilter_get_filter_list tf)) tr \<longleftrightarrow>
      slot_selects (TaskRunFilter.id tf) TaskRunFilterId_get_filter_list tr \<and>
      slot_selects (TaskRunFilter.name tf) TaskRunFilterName_get_filter_list tr \<and>
      slot_selects (TaskRunFilter.tags tf) TaskRunFilterTags_get_filter_list tr \<and>
      slot_selects (TaskRunFilter.state tf) TaskRunFilterState_get_filter_list tr \<and>
      slot_selects (TaskRunFilter.start_time tf) TaskRunFilterStartTime_get_filter_list tr \<and>
      slot_selects (TaskRunFilter.subflow_runs tf) TaskRunFilterSubFlowRuns_get_filter_list tr) \<and>
   (selects (as_sql_filter (DeploymentFilter_get_filter_list df)) d \<longleftrightarrow>
      slot_selects (DeploymentFilter.id df) DeploymentFilterId_get_filter_list d \<and>
      slot_selects (DeploymentFilter.name df) DeploymentFilterName_get_filter_list d \<and>
      slot_selects (DeploymentFilter.is_schedule_active df)
        DeploymentFilterIsScheduleActive_get_filter_list d \<and>
      slot_selects (DeploymentFilter.tags df) DeploymentFilterTags_get_filter_list d) \<and>
   as_sql_filter (FlowFilter_get_filter_list ff) fl = sa_and (FlowFilter_get_filter_list ff) fl \<and>
   as_sql_filter (FlowRunFilter_get_filter_list rf) fr
     = sa_and (FlowRunFilter_get_filter_list rf) fr \<and>
   as_sql_filter (TaskRunFilter_get_filter_list tf) tr
     = sa_and (TaskRunFilter_get_filter_list tf) tr \<and>
   as_sql_filter (DeploymentFilter_get_filter_list df) d
     = sa_and (DeploymentFilter_get_filter_list df) d \<and>
   (\<forall>cs. mset cs = mset (FlowFilter_get_filter_list ff) \<longrightarrow>
      as_sql_filter cs fl = as_sql_filter (FlowFilter_get_filter_list ff) fl) \<and>
   (\<forall>cs. mset cs = mset (FlowRunFilter_get_filter_list rf) \<longrightarrow>
      as_sql_filter cs fr = as_sql_filter (FlowRunFilter_get_filter_list rf) fr) \<and>
   (\<forall>cs. mset cs = mset (TaskRunFilter_get_filter_list tf) \<longrightarrow>
      as_sql_filter cs tr = as_sql_filter (TaskRunFilter_get_filter_list tf) tr) \<and>
   (\<forall>cs. mset cs = mset (DeploymentFilter_get_filter_list df) \<longrightarrow>
      as_sql_filter cs d = as_sql_filter (DeploymentFilter_get_filter_list df) d)"
proof -
  have 1: "selects (as_sql_filter (FlowFilter_get_filter_list ff)) fl \<longleftrightarrow>
      slot_selects (FlowFilter.id ff) FlowFilterId_get_filter_list fl \<and>
      slot_selects (FlowFilter.name ff) FlowFilterName_get_filter_list fl \<and>
      slot_selects (FlowFilter.tags ff) FlowFilterTags_get_filter_list fl"
    unfolding FlowFilter_get_filter_list_def
    by (simp only: selects_as_sql_filter_append selects_as_sql_filter_slot)
  have 2: "selects (as_sql_filter (FlowRunFilter_get_filter_list rf)) fr \<longleftrightarrow>
      slot_selects (FlowRunFilter.id rf) FlowRunFilterId_get_filter_list fr \<and>
      slot_selects (FlowRunFilter.name rf) FlowRunFilterName_get_filter_list fr \<and>
      slot_selects (FlowRunFilter.tags rf) FlowRunFilterTags_get_filter_list fr \<and>
      slot_selects (FlowRunFilter.deployment_id rf) FlowRunFilterDeploymentId_get_filter_list fr \<and>
      slot_selects (FlowRunFilter.flow_version rf) FlowRunFilterFlowVersion_get_filter_list fr \<and>
      slot_selects (FlowRunFilter.state rf) FlowRunFilterState_get_filter_list fr \<and>
      slot_selects (FlowRunFilter.start_time rf) FlowRunFilterStartTime_get_filter_list fr \<and>
      slot_selects (FlowRunFilter.expected_start_time rf)
        FlowRunFilterExpectedStartTime_get_filter_list fr \<and>
      slot_selects (FlowRunFilter.next_scheduled_start_time rf)
        FlowRunFilterNextScheduledStartTime_get_filter_list fr \<and>
      slot_selects (FlowRunFilter.parent_task_run_id rf)
        FlowRunFilterParentTaskRunId_get_filter_list fr"
    unfolding FlowRunFilter_get_filter_list_def
    by (simp only: selects_as_sql_filter_append selects_as_sql_filter_slot)
  have 3: "selects (as_sql_filter (TaskRunFilter_get_filter_list tf)) tr \<longleftrightarrow>
      slot_selects (TaskRunFilter.id tf) TaskRunFilterId_get_filter_list tr \<and>
      slot_selects (TaskRunFilter.name tf) TaskRunFilterName_get_filter_list tr \<and>
      slot_selects (TaskRunFilter.tags tf) TaskRunFilterTags_get_filter_list tr \<and>
      slot_selects (TaskRunFilter.state tf) TaskRunFilterState_get_filter_list tr \<and>
      slot_selects (TaskRunFilter.start_time tf) TaskRunFilterStartTime_get_filter_list tr \<and>
      slot_selects (TaskRunFilter.subflow_runs tf) TaskRunFilterSubFlowRuns_get_filter_list tr"
    unfolding TaskRunFilter_get_filter_list_def
    by (simp only: selects_as_sql_filter_append selects_as_sql_filter_slot)
  have 4: "selects (as_sql_filter (DeploymentFilter_get_filter_list df)) d \<longleftrightarrow>
      slot_selects (DeploymentFilter.id df) DeploymentFilterId_get_filter_list d \<and>
      slot_selects (DeploymentFilter.name df) DeploymentFilterName_get_filter_list d \<and>
      slot_selects (DeploymentFilter.is_schedule_active df)
        DeploymentFilterIsScheduleActive_get_filter_list d \<and>
      slot_selects (DeploymentFilter.tags df) DeploymentFilterTags_get_filter_list d"
    unfolding DeploymentFilter_get_filter_list_def
    by (simp only: selects_as_sql_filter_append selects_as_sql_filter_slot)
  show ?thesis
    by (intro conjI allI impI 1 2 3 4 as_sql_filter_eq_sa_and as_sql_filter_perm)
qed

theorem composite_is_conjunction_of_present_slots_witness:
  "selects (as_sql_filter (FlowRunFilter_get_filter_list flow_run_filter1)) flow_run1 \<and>
   as_sql_filter (rev (FlowRunFilter_get_filter_list flow_run_filter1)) flow_run1
     = as_sql_filter (FlowRunFilter_get_filter_list flow_run_filter1) flow_run1"
proof -
  note t = composite_is_conjunction_of_present_slots
    [of FlowFilter_default flow1 flow_run_filter1 flow_run1 TaskRunFilter_default task_run1
        DeploymentFilter_default "sample_deployment 10"]
  have 1: "selects (as_sql_filter (FlowRunFilter_get_filter_list flow_run_filter1)) flow_run1"
    by (rule iffD2 [OF t [THEN conjunct2, THEN conjunct1]])
       (simp add: slot_selects_def flow_run_filter1_def flow_run1_def
          FlowRunFilterName_get_filter_list_def FlowRunFilterTags_get_filter_list_def
          as_sql_filter_def sa_and_def selects_def col_in_def not_null_def
          json_has_all_keys_def)
  have p: "\<forall>cs. mset cs = mset (FlowRunFilter_get_filter_list flow_run_filter1) \<longrightarrow>
      as_sql_filter cs flow_run1
        = as_sql_filter (FlowRunFilter_get_filter_list flow_run_filter1) flow_run1"
    by (rule t [THEN conjunct2, THEN conjunct2, THEN conjunct2, THEN conjunct2, THEN conjunct2,
      THEN conjunct2, THEN conjunct2, THEN conjunct2, THEN conjunct2, THEN conjunct1])
  have 2: "as_sql_filter (rev (FlowRunFilter_get_filter_list flow_run_filter1)) flow_run1
     = as_sql_filter (FlowRunFilter_get_filter_list flow_run_filter1) flow_run1"
    by (rule p [rule_format]) simp
  show ?thesis using 1 2 by simp
qed

section \<open>The schedule materializer\<close>

subsection \<open>The page query and the loop\<close>

lemma unique_on_distinct:
  "distinct (map key xs) \<Longrightarrow> key ` set xs \<inter> set seen = {} \<Longrightarrow> unique_on key seen xs = xs"
  by (induction xs arbitrary: seen) auto

lemma set_unique_on: "set (unique_on key seen xs) \<subseteq> set xs"
  by (induction xs arbitrary: seen) auto

lemma set_page_query:
  "set (page_query truthy n last_id table)
     \<subseteq> {d \<in> set table. schedulable d \<and> after_cursor truthy last_id d}"
proof -
  have "set (page_query truthy n last_id table)
      \<subseteq> set (take n (sort_key Deployment.id
            (filter (\<lambda>d. schedulable d \<and> after_cursor truthy last_id d) table)))"
    unfolding page_query_def by (rule set_unique_on)
  also have "\<dots> \<subseteq> set (sort_key Deployment.id
            (filter (\<lambda>d. schedulable d \<and> after_cursor truthy last_id d) table))"
    by (rule set_take_subset)
  finally show ?thesis by auto
qed

lemma after_cursor_shrinks:
  assumes x: "x \<in> set table" "schedulable x" "after_cursor truthy last_id x"
    and t: "truthy (Deployment.id x)"
  shows "length (filter (\<lambda>d. schedulable d \<and> after_cursor truthy (Some (Deployment.id x)) d) table)
       < length (filter (\<lambda>d. schedulable d \<and> after_cursor truthy last_id d) table)"
proof -
  let ?Q = "\<lambda>d. schedulable d \<and> after_cursor truthy last_id d"
  let ?Q' = "\<lambda>d. schedulable d \<and> after_cursor truthy (Some (Deployment.id x)) d"
  have imp: "?Q' d \<Longrightarrow> ?Q d" for d
    using x(3) t by (auto simp add: after_cursor_def split: option.splits if_splits)
  have "filter ?Q' table = filter ?Q' (filter ?Q table)"
    using imp by (auto simp add: filter_filter intro: filter_cong)
  moreover have "x \<in> set (filter ?Q table)" using x by simp
  moreover have "\<not> ?Q' x" using t by (simp add: after_cursor_def)
  ultimately show ?thesis
    using length_filter_less [of x "filter ?Q table" ?Q'] by simp
qed

lemma run_once_loop_returns:
  assumes tr: "\<forall>d\<in>set table. truthy (Deployment.id d)"
  shows "\<exists>r. run_once_loop self truthy gen ins table now last_id session tot pages = Some r"
proof (induction "length (filter (\<lambda>d. schedulable d \<and> after_cursor truthy last_id d) table)"
    arbitrary: last_id session tot pages rule: less_induct)
  case less
  let ?deps = "page_query truthy (deployment_batch_size self) last_id table"
  show ?case
  proof (cases "process_page self gen ins now session tot ?deps")
    case (Inl e)
    then show ?thesis by (subst run_once_loop.simps) (simp add: Let_def)
  next
    case (Inr p)
    obtain s' t' where p: "p = (s', t')" by (cases p)
    show ?thesis
    proof (cases "length ?deps < deployment_batch_size self \<or> ?deps = []")
      case True
      then show ?thesis using Inr p by (subst run_once_loop.simps) (auto simp add: Let_def)
    next
      case False
      then have ne: "?deps \<noteq> []" by simp
      then have "last ?deps \<in> set ?deps" by (rule last_in_set)
      with set_page_query [of truthy "deployment_batch_size self" last_id table]
      have mem: "last ?deps \<in> set table" "schedulable (last ?deps)"
        "after_cursor truthy last_id (last ?deps)" by auto
      from mem(1) tr have "truthy (Deployment.id (last ?deps))" by blast
      from less [OF after_cursor_shrinks [OF mem this]]
      obtain r where "run_once_loop self truthy gen ins table now
          (Some (Deployment.id (last ?deps))) s' t' (pages @ [?deps]) = Some r"
        by blast
      then show ?thesis using Inr p False
        by (subst run_once_loop.simps) (simp add: Let_def)
    qed
  qed
qed


lemma collect_runs_succeeds:
  assumes "\<forall>s i a b m. \<exists>rs. gen s i a b m = Inr rs"
  shows "\<exists>rs. collect_runs gen session self now ds acc = Inr rs"
proof (induction ds arbitrary: acc)
  case Nil
  show ?case by simp
next
  case (Cons d ds)
  from assms obtain rs where
    "gen session (Deployment.id d) now (now + max_scheduled_time self) (max_runs self) = Inr rs"
    by blast
  with Cons show ?case by simp
qed

lemma insert_batches_succeeds:
  assumes "\<forall>s b. \<exists>s' r. ins s b = Inr (s', r)"
  shows "\<exists>s' t'. insert_batches ins session tot bs = Inr (s', t')"
proof (induction bs arbitrary: session tot)
  case Nil
  show ?case by simp
next
  case (Cons b bs)
  from assms obtain s' r where "ins session b = Inr (s', r)" by blast
  with Cons show ?case by simp
qed

lemma process_page_succeeds:
  assumes "\<forall>s i a b m. \<exists>rs. gen s i a b m = Inr rs" "\<forall>s b. \<exists>s' r. ins s b = Inr (s', r)"
  shows "\<exists>s' t'. process_page self gen ins now session tot ds = Inr (s', t')"
proof -
  from collect_runs_succeeds [OF assms(1)] obtain rs where
    "collect_runs gen session self now ds [] = Inr rs" by blast
  with insert_batches_succeeds [OF assms(2)] show ?thesis
    by (simp add: process_page_def)
qed

lemma page_query_sorted:
  assumes "distinct (map Deployment.id table)"
  shows "page_query truthy n last_id table
       = take n (filter (after_cursor truthy last_id)
                  (sort_key Deployment.id (filter schedulable table)))"
proof -
  let ?srt = "sort_key Deployment.id (filter schedulable table)"
  have "filter (\<lambda>d. schedulable d \<and> after_cursor truthy last_id d) table
      = filter (after_cursor truthy last_id) (filter schedulable table)"
    by (simp add: conj_commute)
  then have eq: "sort_key Deployment.id
        (filter (\<lambda>d. schedulable d \<and> after_cursor truthy last_id d) table)
      = filter (after_cursor truthy last_id) ?srt"
    by (simp only: filter_sort)
  have "distinct (map Deployment.id (filter schedulable table))"
    using assms by (rule distinct_map_filter)
  then have "distinct (map Deployment.id ?srt)"
    by (simp add: distinct_map)
  then have "distinct (map Deployment.id (filter (after_cursor truthy last_id) ?srt))"
    by (rule distinct_map_filter)
  then have "distinct (map Deployment.id (take n (filter (after_cursor truthy last_id) ?srt)))"
    by (simp add: take_map [symmetric])
  then show ?thesis
    unfolding page_query_def eq by (simp add: unique_on_distinct)
qed

lemma filter_after_last:
  fixes f :: "'a \<Rightarrow> 'b::linorder"
  assumes "sorted (map f (pre @ rest))" "distinct (map f (pre @ rest))" "pre \<noteq> []"
  shows "filter (\<lambda>d. f (last pre) < f d) (pre @ rest) = rest"
proof -
  have l: "last pre \<in> set pre" using assms(3) by simp
  have "\<forall>d\<in>set pre. \<not> f (last pre) < f d"
  proof
    fix d assume d: "d \<in> set pre"
    have "sorted (map f pre)" using assms(1) by (simp add: sorted_append)
    obtain ys where pre: "pre = ys @ [last pre]"
      using assms(3) by (metis append_butlast_last_id)
    then have "sorted (map f ys @ [f (last pre)])" using \<open>sorted (map f pre)\<close>
      by (metis list.simps(8) list.simps(9) map_append)
    then have "\<forall>y\<in>set ys. f y \<le> f (last pre)" by (simp add: sorted_append)
    with d pre show "\<not> f (last pre) < f d"
      by (metis Un_iff empty_iff empty_set insert_iff list.simps(15) not_less order_refl set_append)
  qed
  then have 1: "filter (\<lambda>d. f (last pre) < f d) pre = []" by (simp add: filter_empty_conv)
  have "\<forall>d\<in>set rest. f (last pre) < f d"
  proof
    fix d assume d: "d \<in> set rest"
    from assms(1) l d have "f (last pre) \<le> f d" by (auto simp add: sorted_append)
    moreover from assms(2) l d have "f (last pre) \<noteq> f d" by auto
    ultimately show "f (last pre) < f d" by simp
  qed
  then have 2: "filter (\<lambda>d. f (last pre) < f d) rest = rest" by simp
  show ?thesis by (simp add: 1 2)
qed


lemma run_once_loop_pages:
  assumes pos: "0 < deployment_batch_size self"
    and gen: "\<forall>s i a b m. \<exists>rs. gen s i a b m = Inr rs"
    and ins: "\<forall>s b. \<exists>s' r. ins s b = Inr (s', r)"
    and dist: "distinct (map Deployment.id table)"
    and tr: "\<forall>d\<in>set table. truthy (Deployment.id d)"
    and split: "sort_key Deployment.id (filter schedulable table) = pre @ rest"
    and cur: "if pre = [] then last_id = None else last_id = Some (Deployment.id (last pre))"
  shows "\<exists>s' t'. run_once_loop self truthy gen ins table now last_id session tot pages
           = Some (Inr (s', t', pages @ expected_pages (deployment_batch_size self) rest))"
  using split cur
proof (induction "length rest" arbitrary: pre rest last_id session tot pages rule: less_induct)
  case less
  let ?P = "deployment_batch_size self"
  let ?srt = "sort_key Deployment.id (filter schedulable table)"
  have "distinct (map Deployment.id (filter schedulable table))"
    using dist by (rule distinct_map_filter)
  then have srt: "sorted (map Deployment.id ?srt)" "distinct (map Deployment.id ?srt)"
    by (simp_all add: distinct_map)
  have flt: "filter (after_cursor truthy last_id) ?srt = rest"
  proof (cases "pre = []")
    case True
    with less.prems show ?thesis by (simp add: after_cursor_def)
  next
    case False
    then have "last pre \<in> set ?srt" using less.prems(1) by simp
    then have "truthy (Deployment.id (last pre))" using tr by auto
    then have "after_cursor truthy last_id = (\<lambda>d. Deployment.id (last pre) < Deployment.id d)"
      using False less.prems(2) by (auto simp add: after_cursor_def)
    then show ?thesis
      using filter_after_last [of Deployment.id pre rest] srt False less.prems(1) by simp
  qed
  have page: "page_query truthy ?P last_id table = take ?P rest"
    using page_query_sorted [OF dist] flt by simp
  obtain s1 t1 where pp: "process_page self gen ins now session tot (take ?P rest) = Inr (s1, t1)"
    using process_page_succeeds [OF gen ins] by blast
  show ?case
  proof (cases "length rest < ?P")
    case True
    then have "expected_pages ?P rest = [rest]"
      by (subst expected_pages.simps) simp
    then show ?thesis using pp page True
      by (subst run_once_loop.simps) (simp add: Let_def)
  next
    case False
    then have full: "length (take ?P rest) = ?P" by simp
    then have ne: "take ?P rest \<noteq> []" using pos by auto
    have 1: "length (drop ?P rest) < length rest" using False pos by simp
    have 2: "?srt = (pre @ take ?P rest) @ drop ?P rest" using less.prems(1) by simp
    have 3: "if pre @ take ?P rest = [] then Some (Deployment.id (last (take ?P rest))) = None
      else Some (Deployment.id (last (take ?P rest)))
         = Some (Deployment.id (last (pre @ take ?P rest)))"
      using ne by simp
    from less.hyps [OF 1 2 3] obtain s' t' where
      "run_once_loop self truthy gen ins table now (Some (Deployment.id (last (take ?P rest))))
          s1 t1 (pages @ [take ?P rest])
        = Some (Inr (s', t', (pages @ [take ?P rest]) @ expected_pages ?P (drop ?P rest)))"
      by blast
    moreover have "expected_pages ?P rest = take ?P rest # expected_pages ?P (drop ?P rest)"
      using False pos by (subst expected_pages.simps) simp
    ultimately show ?thesis using pp page False ne full
      by (subst run_once_loop.simps) (simp add: Let_def)
  qed
qed

lemma concat_expected_pages: "concat (expected_pages p xs) = xs"
  by (induction p xs rule: expected_pages.induct) (subst expected_pages.simps, simp)

lemma length_expected_pages:
  "0 < p \<Longrightarrow> length (expected_pages p xs) = length xs div p + 1"
proof (induction p xs rule: expected_pages.induct)
  case (1 p xs)
  show ?case
  proof (cases "length xs < p")
    case True
    then show ?thesis by (subst expected_pages.simps) simp
  next
    case False
    then have "length (expected_pages p (drop p xs)) = (length xs - p) div p + 1"
      using 1 by simp
    moreover have "(length xs - p) div p + 1 = length xs div p"
      using False 1(2) by (simp add: le_div_geq)
    ultimately show ?thesis using False 1(2) by (subst expected_pages.simps) simp
  qed
qed

lemma expected_pages_not_Nil: "expected_pages p xs \<noteq> []"
  by (subst expected_pages.simps) simp

lemma last_expected_pages: "0 < p \<Longrightarrow> length (last (expected_pages p xs)) < p"
proof (induction p xs rule: expected_pages.induct)
  case (1 p xs)
  show ?case
  proof (cases "length xs < p")
    case True
    then show ?thesis by (subst expected_pages.simps) simp
  next
    case False
    then show ?thesis using 1
      by (subst expected_pages.simps) (simp add: expected_pages_not_Nil)
  qed
qed

lemma butlast_expected_pages:
  "0 < p \<Longrightarrow> pg \<in> set (butlast (expected_pages p xs)) \<Longrightarrow> length pg = p"
proof (induction p xs rule: expected_pages.induct)
  case (1 p xs)
  show ?case
  proof (cases "length xs < p")
    case True
    then show ?thesis using 1(3) by (subst (asm) expected_pages.simps) simp
  next
    case False
    then have "pg \<in> set (butlast (take p xs # expected_pages p (drop p xs)))"
      using 1(3) 1(2) by (subst (asm) expected_pages.simps) simp
    then have "pg = take p xs \<or> pg \<in> set (butlast (expected_pages p (drop p xs)))"
      by (simp add: expected_pages_not_Nil)
    then show ?thesis using 1 False by auto
  qed
qed

lemma page_last_facts:
  assumes "page_query truthy n last_id table \<noteq> []"
  shows "last (page_query truthy n last_id table) \<in> set table"
    "schedulable (last (page_query truthy n last_id table))"
    "after_cursor truthy last_id (last (page_query truthy n last_id table))"
proof -
  from assms have "last (page_query truthy n last_id table) \<in> set (page_query truthy n last_id table)"
    by (rule last_in_set)
  with set_page_query [of truthy n last_id table]
  show "last (page_query truthy n last_id table) \<in> set table"
    "schedulable (last (page_query truthy n last_id table))"
    "after_cursor truthy last_id (last (page_query truthy n last_id table))"
    by auto
qed

subsection \<open>Batches and the insert\<close>

lemma concat_batched_iterable: "0 < n \<Longrightarrow> concat (batched_iterable xs n) = xs"
  by (induction xs n rule: batched_iterable.induct) (subst batched_iterable.simps, simp)

lemma length_batched_iterable:
  "b \<in> set (batched_iterable xs n) \<Longrightarrow> length b \<le> n \<and> b \<noteq> []"
proof (induction xs n rule: batched_iterable.induct)
  case (1 xs n)
  show ?case
  proof (cases "n = 0 \<or> xs = []")
    case True
    then show ?thesis using 1(2) by (subst (asm) batched_iterable.simps) simp
  next
    case False
    then have "b = take n xs \<or> b \<in> set (batched_iterable (drop n xs) n)"
      using 1(2) by (subst (asm) batched_iterable.simps) simp
    then show ?thesis using 1(1) False by auto
  qed
qed

lemma collect_runs_candidates:
  "collect_runs gen session self now ds acc = Inr rs \<Longrightarrow>
     rs = acc @ concat (map (candidates gen session self now) ds) \<and>
     (\<forall>d\<in>set ds. gen session (Deployment.id d) now (now + max_scheduled_time self)
        (max_runs self) = Inr (candidates gen session self now d))"
proof (induction ds arbitrary: acc)
  case Nil
  then show ?case by simp
next
  case (Cons d ds)
  let ?g = "gen session (Deployment.id d) now (now + max_scheduled_time self) (max_runs self)"
  show ?case
  proof (cases ?g)
    case (Inl e)
    with Cons.prems show ?thesis by simp
  next
    case (Inr runs)
    then have c: "candidates gen session self now d = runs" by (simp add: candidates_def)
    from Cons.prems Inr have "collect_runs gen session self now ds (acc @ runs) = Inr rs"
      by simp
    from Cons.IH [OF this] show ?thesis using Inr c by simp
  qed
qed

lemma collect_runs_on_session:
  "collect_runs (on_session gen) (session, offered) self now ds acc
     = collect_runs gen session self now ds acc"
  by (induction ds arbitrary: acc) (simp_all add: on_session_def split: sum.splits)

lemma insert_batches_recording:
  "insert_batches (recording ins) (session, offered) tot bs = Inr ((session', offered'), tot')
     \<Longrightarrow> offered' = offered @ bs \<and> insert_batches ins session tot bs = Inr (session', tot')"
proof (induction bs arbitrary: session offered tot)
  case Nil
  then show ?case by simp
next
  case (Cons b bs)
  show ?case
  proof (cases "ins session b")
    case (Inl e)
    with Cons.prems show ?thesis by (simp add: recording_def)
  next
    case (Inr p)
    obtain s1 r where p: "p = (s1, r)" by (cases p)
    from Cons.prems Inr p
    have "insert_batches (recording ins) (s1, offered @ [b]) (tot + length r) bs
        = Inr ((session', offered'), tot')"
      by (simp add: recording_def)
    from Cons.IH [OF this] show ?thesis using Inr p by simp
  qed
qed

lemma insert_batches_dedup:
  assumes "deduplicates_on key ins"
  shows "insert_batches ins s t bs = Inr (s', t') \<Longrightarrow>
     key ` set s \<subseteq> key ` set s' \<and> (\<forall>b\<in>set bs. key ` set b \<subseteq> key ` set s')"
proof (induction bs arbitrary: s t)
  case Nil
  then show ?case by simp
next
  case (Cons b bs)
  from assms obtain inserted where i: "ins s b = Inr (s @ inserted, inserted)"
    "key ` set b \<subseteq> key ` set (s @ inserted)"
    unfolding deduplicates_on_def by blast
  with Cons.prems have "insert_batches ins (s @ inserted) (t + length inserted) bs = Inr (s', t')"
    by simp
  from Cons.IH [OF this]
  have "key ` set (s @ inserted) \<subseteq> key ` set s'" "\<forall>b\<in>set bs. key ` set b \<subseteq> key ` set s'"
    by simp_all
  with i(2) show ?case by auto
qed

lemma insert_batches_noop:
  assumes "deduplicates_on key ins" "\<forall>b\<in>set bs. key ` set b \<subseteq> key ` set s"
  shows "insert_batches ins s t bs = Inr (s, t)"
  using assms(2)
proof (induction bs arbitrary: t)
  case Nil
  show ?case by simp
next
  case (Cons b bs)
  from assms(1) obtain inserted where i: "ins s b = Inr (s @ inserted, inserted)"
    "key ` set b \<subseteq> key ` set s \<longrightarrow> inserted = []"
    unfolding deduplicates_on_def by blast
  with Cons.prems have "ins s b = Inr (s, [])" by simp
  with Cons show ?case by simp
qed

lemma collect_runs_cong_session:
  "gen s = gen s2 \<Longrightarrow> collect_runs gen s self now ds acc = collect_runs gen s2 self now ds acc"
  by (induction ds arbitrary: acc) (simp_all split: sum.splits)

lemma process_page_dedup:
  assumes dd: "deduplicates_on key ins" and det: "deterministic gen"
    and pp: "process_page self gen ins now s t ds = Inr (s', t')"
  shows "key ` set s \<subseteq> key ` set s' \<and>
     (\<forall>s2 t2. key ` set s' \<subseteq> key ` set s2 \<longrightarrow>
        process_page self gen ins now s2 t2 ds = Inr (s2, t2))"
proof (cases "collect_runs gen s self now ds []")
  case (Inl e)
  with pp show ?thesis by (simp add: process_page_def)
next
  case (Inr all_runs)
  let ?bs = "batched_iterable all_runs (scheduler_insert_batch_size self)"
  from pp Inr have ib: "insert_batches ins s t ?bs = Inr (s', t')"
    by (simp add: process_page_def)
  from insert_batches_dedup [OF dd ib]
  have k: "key ` set s \<subseteq> key ` set s'" "\<forall>b\<in>set ?bs. key ` set b \<subseteq> key ` set s'"
    by simp_all
  have "process_page self gen ins now s2 t2 ds = Inr (s2, t2)"
    if "key ` set s' \<subseteq> key ` set s2" for s2 t2
  proof -
    from det have "gen s = gen s2" by (simp add: deterministic_def)
    then have "collect_runs gen s2 self now ds [] = Inr all_runs"
      using Inr collect_runs_cong_session [of gen s s2] by simp
    moreover have "\<forall>b\<in>set ?bs. key ` set b \<subseteq> key ` set s2" using k(2) that by blast
    from insert_batches_noop [OF dd this] have "insert_batches ins s2 t2 ?bs = Inr (s2, t2)" .
    ultimately show ?thesis by (simp add: process_page_def)
  qed
  with k(1) show ?thesis by blast
qed

lemma run_once_loop_idempotent:
  assumes dd: "deduplicates_on key ins" and det: "deterministic gen"
    and run: "run_once_loop self truthy gen ins table now last_id s t pages = Some y"
  shows "\<forall>s' t' pages'. y = Inr (s', t', pages') \<longrightarrow>
      key ` set s \<subseteq> key ` set s' \<and>
      (\<forall>s2 t2 pages2. key ` set s' \<subseteq> key ` set s2 \<longrightarrow>
         (\<exists>pg. run_once_loop self truthy gen ins table now last_id s2 t2 pages2
                = Some (Inr (s2, t2, pg))))"
proof -
  let ?P = "\<lambda>self truthy gen ins table now last_id s t (pages :: Deployment list list) y.
      deduplicates_on key ins \<longrightarrow> deterministic gen \<longrightarrow>
      (\<forall>s' t' pages'. y = Inr (s', t', pages' :: Deployment list list) \<longrightarrow>
        key ` set s \<subseteq> key ` set s' \<and>
        (\<forall>s2 t2 pages2. key ` set s' \<subseteq> key ` set s2 \<longrightarrow>
           (\<exists>pg. run_once_loop self truthy gen ins table now last_id s2 t2 pages2
                = Some (Inr (s2, t2, pg)))))"
  have "?P self truthy gen ins table now last_id s t pages y"
  proof (rule run_once_loop.raw_induct [where P = ?P, OF _ run], intro impI allI)
    fix f self truthy gen ins table now last_id s t pages y s' t' pages'
    assume IH: "\<And>self truthy gen ins table now last_id s t pages y.
        f self truthy gen ins table now last_id s t pages = Some y \<Longrightarrow>
        ?P self truthy gen ins table now last_id s t pages y"
      and step: "(let deployments = page_query truthy (deployment_batch_size self) last_id table in
        case process_page self gen ins now s t deployments of
          Inl e \<Rightarrow> Some (Inl e)
        | Inr (session', total') \<Rightarrow>
            if length deployments < deployment_batch_size self
            then Some (Inr (session', total', pages @ [deployments]))
            else if deployments = [] then Some (Inl IndexError)
            else f self truthy gen ins table now
                   (Some (Deployment.id (last deployments))) session' total'
                   (pages @ [deployments])) = Some y"
      and dd: "deduplicates_on key ins" and det: "deterministic gen"
      and y: "y = Inr (s', t', pages')"
    let ?deps = "page_query truthy (deployment_batch_size self) last_id table"
    show "key ` set s \<subseteq> key ` set s' \<and>
        (\<forall>s2 t2 pages2. key ` set s' \<subseteq> key ` set s2 \<longrightarrow>
           (\<exists>pg. run_once_loop self truthy gen ins table now last_id s2 t2 pages2
                = Some (Inr (s2, t2, pg))))"
    proof (cases "process_page self gen ins now s t ?deps")
      case (Inl e)
      with step y show ?thesis by (simp add: Let_def)
    next
      case (Inr p)
      obtain s1 t1 where p: "p = (s1, t1)" by (cases p)
      from process_page_dedup [OF dd det Inr [unfolded p]]
      have k: "key ` set s \<subseteq> key ` set s1"
        and again: "\<And>s2 t2. key ` set s1 \<subseteq> key ` set s2 \<Longrightarrow>
            process_page self gen ins now s2 t2 ?deps = Inr (s2, t2)"
        by blast+
      show ?thesis
      proof (cases "length ?deps < deployment_batch_size self")
        case True
        with step Inr p y have s1: "s' = s1" by (simp add: Let_def)
        have "\<exists>pg. run_once_loop self truthy gen ins table now last_id s2 t2 pages2
                = Some (Inr (s2, t2, pg))"
          if "key ` set s' \<subseteq> key ` set s2" for s2 t2 pages2
          using again [of s2 t2] that s1 True
          by (subst run_once_loop.simps) (simp add: Let_def)
        with k s1 show ?thesis by blast
      next
        case False
        show ?thesis
        proof (cases "?deps = []")
          case True
          with step Inr p y False show ?thesis by (simp add: Let_def)
        next
          case ne: False
          from step Inr p False ne
          have "f self truthy gen ins table now (Some (Deployment.id (last ?deps))) s1 t1
                  (pages @ [?deps]) = Some y"
            by (simp add: Let_def)
          from IH [OF this] dd det y
          have k1: "key ` set s1 \<subseteq> key ` set s'"
            and rec: "\<And>s2 t2 pages2. key ` set s' \<subseteq> key ` set s2 \<Longrightarrow>
              \<exists>pg. run_once_loop self truthy gen ins table now
                     (Some (Deployment.id (last ?deps))) s2 t2 pages2 = Some (Inr (s2, t2, pg))"
            by blast+
          have "\<exists>pg. run_once_loop self truthy gen ins table now last_id s2 t2 pages2
                = Some (Inr (s2, t2, pg))"
            if "key ` set s' \<subseteq> key ` set s2" for s2 t2 pages2
          proof -
            from that k1 have "key ` set s1 \<subseteq> key ` set s2" by blast
            from again [OF this, of t2] rec [OF that, of t2 "pages2 @ [?deps]"] False ne
            show ?thesis by (subst run_once_loop.simps) (simp add: Let_def)
          qed
          with k k1 show ?thesis by blast
        qed
      qed
    qed
  qed
  with dd det show ?thesis by blast
qed

lemma unique_on_covers: "key ` set xs \<subseteq> set seen \<union> key ` set (unique_on key seen xs)"
proof (induction xs arbitrary: seen)
  case Nil
  show ?case by simp
next
  case (Cons x xs)
  show ?case
  proof (cases "key x \<in> set seen")
    case True
    with Cons [of seen] show ?thesis by auto
  next
    case False
    with Cons [of "key x # seen"] show ?thesis by auto
  qed
qed

lemma unique_on_all_seen: "key ` set xs \<subseteq> set seen \<Longrightarrow> unique_on key seen xs = []"
  by (induction xs arbitrary: seen) auto

lemma insert_runs_deduplicates: "deduplicates_on run_key insert_runs"
  unfolding deduplicates_on_def
proof (intro allI)
  fix table batch
  let ?i = "unique_on run_key (map run_key table) batch"
  have 1: "insert_runs table batch = Inr (table @ ?i, ?i)"
    by (simp add: insert_runs_def Let_def)
  have 2: "set ?i \<subseteq> set batch" by (rule set_unique_on)
  have 3: "run_key ` set batch \<subseteq> run_key ` set (table @ ?i)"
    using unique_on_covers [of run_key batch "map run_key table"] by auto
  have 4: "run_key ` set batch \<subseteq> run_key ` set table \<longrightarrow> ?i = []"
    using unique_on_all_seen [of run_key batch "map run_key table"] by simp
  show "\<exists>inserted. insert_runs table batch = Inr (table @ inserted, inserted) \<and>
      set inserted \<subseteq> set batch \<and>
      run_key ` set batch \<subseteq> run_key ` set (table @ inserted) \<and>
      (run_key ` set batch \<subseteq> run_key ` set table \<longrightarrow> inserted = [])"
    by (rule exI [of _ ?i]) (intro conjI 1 2 3 4)
qed




subsection \<open>Runs on the sample values\<close>

lemmas sample_defs = uuid_truthy_def sample_deployment_def sample_scheduler_def sample_run_def
  no_runs_def hourly_def failing_on_def

lemmas eval_defs = run_once_def page_query_def schedulable_def after_cursor_def
  process_page_def insert_runs_def run_key_def Let_def

lemma batched_iterable_Nil: "batched_iterable [] n = []"
  by (subst batched_iterable.simps) simp

lemma batched_iterable_Cons:
  "0 < n \<Longrightarrow> batched_iterable (x # xs) n = take n (x # xs) # batched_iterable (drop n (x # xs)) n"
  by (subst batched_iterable.simps) simp

lemma eval_failing_run: "run_once (sample_scheduler 1 2) uuid_truthy (failing_on 20) insert_runs
      [sample_deployment 10, sample_deployment 20] 0 [sample_run 10 1]
    = Some ([sample_run 10 1], Inl (CollaboratorError ''no schedule''))"
  by (simp add: run_once_loop.simps eval_defs sample_defs batched_iterable_Nil batched_iterable_Cons)

lemma eval_first_page: "process_page (sample_scheduler 1 2) (failing_on 20) insert_runs 0 [sample_run 10 1] 0
      [sample_deployment 10]
    = Inr ([sample_run 10 1, sample_run 10 2], 1)"
  by (simp add: eval_defs sample_defs batched_iterable_Nil batched_iterable_Cons)

lemma eval_first_run: "run_once (sample_scheduler 2 1) uuid_truthy hourly insert_runs
      [sample_deployment 30, sample_deployment 10, sample_deployment 20] 0 []
    = Some ([sample_run 10 1, sample_run 10 2, sample_run 20 1, sample_run 20 2,
             sample_run 30 1, sample_run 30 2], Inr 6)"
  by (simp add: run_once_loop.simps eval_defs sample_defs batched_iterable_Nil batched_iterable_Cons)

lemma eval_recorded_page: "process_page (sample_scheduler 3 1) (on_session hourly) (recording insert_runs) 0
      ([], []) 0 [sample_deployment 10]
    = Inr (([sample_run 10 1, sample_run 10 2], [[sample_run 10 1], [sample_run 10 2]]), 2)"
  by (simp add: eval_defs sample_defs batched_iterable_Nil batched_iterable_Cons
      on_session_def recording_def)



subsection \<open>Claims about the materializer\<close>

text \<open>
  Three deployments at page size three: the first page is full, so the loop fetches a
  second, empty page before it stops. It fetches two pages, and the ceiling of 3 / 3 is
  one.
\<close>

theorem page_count_counterexample:
  "run_once_loop (sample_scheduler 3 2) uuid_truthy no_runs insert_runs
      [sample_deployment 30, sample_deployment 10, sample_deployment 20] 0 None [] 0 []
    = Some (Inr ([], 0,
        [[sample_deployment 10, sample_deployment 20, sample_deployment 30], []])) \<and>
   length [[sample_deployment 10, sample_deployment 20, sample_deployment 30], []]
     \<noteq> ceil_div 3 3"
  by (simp add: run_once_loop.simps eval_defs sample_defs batched_iterable_Nil ceil_div_def)

text \<open>
  C1, as the code has it. For a deployment table with distinct identifiers that are all
  true in Python's sense, a page size \<open>P > 0\<close> and collaborators that do not raise, one
  invocation's loop returns, and the pages it has fetched, joined, are the \<open>N\<close>
  deployments with an active non-null schedule, each once, in strictly ascending
  identifier order. It fetches \<open>N div P + 1\<close> pages: every page but the last has
  \<open>P\<close> rows and the last, the first with fewer than \<open>P\<close> rows, ends the loop. That
  is the ceiling of \<open>N / P\<close> only when \<open>P\<close> does not divide \<open>N\<close>; otherwise the last
  page is empty and the count is one more.
\<close>

theorem pagination_visits_each_once:
  assumes pos: "0 < deployment_batch_size self"
    and gen: "\<forall>s i a b m. \<exists>rs. gen s i a b m = Inr rs"
    and ins: "\<forall>s b. \<exists>s' r. ins s b = Inr (s', r)"
    and dist: "distinct (map Deployment.id table)"
    and tr: "\<forall>d\<in>set table. truthy (Deployment.id d)"
  shows "\<exists>s' t' pages.
      run_once_loop self truthy gen ins table now None session 0 [] = Some (Inr (s', t', pages)) \<and>
      concat pages = schedulable_in_order table \<and>
      sorted_wrt (<) (map Deployment.id (concat pages)) \<and>
      set (concat pages) = {d \<in> set table. schedulable d} \<and>
      length pages = length (filter schedulable table) div deployment_batch_size self + 1 \<and>
      (\<forall>pg\<in>set (butlast pages). length pg = deployment_batch_size self) \<and>
      length (last pages) < deployment_batch_size self"
proof -
  let ?P = "deployment_batch_size self"
  let ?srt = "schedulable_in_order table"
  have split: "sort_key Deployment.id (filter schedulable table) = [] @ ?srt"
    by (simp add: schedulable_in_order_def)
  have cur: "if ([] :: Deployment list) = [] then (None :: uuid option) = None
    else None = Some (Deployment.id (last []))"
    by simp
  from run_once_loop_pages [OF pos gen ins dist tr split cur]
  obtain s' t' where run: "run_once_loop self truthy gen ins table now None session 0 []
      = Some (Inr (s', t', [] @ expected_pages ?P ?srt))"
    by blast
  have c: "concat (expected_pages ?P ?srt) = ?srt" by (rule concat_expected_pages)
  have "distinct (map Deployment.id (filter schedulable table))"
    using dist by (rule distinct_map_filter)
  then have "sorted (map Deployment.id ?srt)" "distinct (map Deployment.id ?srt)"
    by (simp_all add: schedulable_in_order_def distinct_map)
  then have s: "sorted_wrt (<) (map Deployment.id ?srt)" by (simp add: strict_sorted_iff)
  have m: "set ?srt = {d \<in> set table. schedulable d}"
    by (simp add: schedulable_in_order_def)
  have l: "length (expected_pages ?P ?srt) = length (filter schedulable table) div ?P + 1"
    using length_expected_pages [OF pos, of ?srt] by (simp add: schedulable_in_order_def)
  have b: "\<forall>pg\<in>set (butlast (expected_pages ?P ?srt)). length pg = ?P"
    using butlast_expected_pages [OF pos] by blast
  have e: "length (last (expected_pages ?P ?srt)) < ?P" using pos by (rule last_expected_pages)
  show ?thesis
  proof (intro exI conjI)
    show "run_once_loop self truthy gen ins table now None session 0 []
      = Some (Inr (s', t', expected_pages ?P ?srt))"
      using run by simp
    show "concat (expected_pages ?P ?srt) = ?srt" by (rule c)
    show "sorted_wrt (<) (map Deployment.id (concat (expected_pages ?P ?srt)))"
      using s by (simp only: c)
    show "set (concat (expected_pages ?P ?srt)) = {d \<in> set table. schedulable d}"
      using m by (simp only: c)
    show "length (expected_pages ?P ?srt) = length (filter schedulable table) div ?P + 1"
      by (rule l)
    show "\<forall>pg\<in>set (butlast (expected_pages ?P ?srt)). length pg = ?P" by (rule b)
    show "length (last (expected_pages ?P ?srt)) < ?P" by (rule e)
  qed
qed

theorem pagination_visits_each_once_witness:
  "0 < deployment_batch_size (sample_scheduler 3 2) \<and>
   distinct (map Deployment.id seven_deployments) \<and>
   list_all (\<lambda>d. uuid_truthy (Deployment.id d)) seven_deployments \<and>
   (\<exists>s' t' pages.
      run_once_loop (sample_scheduler 3 2) uuid_truthy no_runs insert_runs seven_deployments
        0 None [] 0 [] = Some (Inr (s', t', pages)) \<and>
      concat pages = schedulable_in_order seven_deployments \<and>
      sorted_wrt (<) (map Deployment.id (concat pages)) \<and>
      set (concat pages) = {d \<in> set seven_deployments. schedulable d} \<and>
      length pages = length (filter schedulable seven_deployments)
        div deployment_batch_size (sample_scheduler 3 2) + 1 \<and>
      (\<forall>pg\<in>set (butlast pages). length pg = deployment_batch_size (sample_scheduler 3 2)) \<and>
      length (last pages) < deployment_batch_size (sample_scheduler 3 2)) \<and>
   run_once_loop (sample_scheduler 3 2) uuid_truthy no_runs insert_runs seven_deployments
     0 None [] 0 []
     = Some (Inr ([], 0,
         [[sample_deployment 10, sample_deployment 20, sample_deployment 30],
          [sample_deployment 40, sample_deployment 50, sample_deployment 60],
          [sample_deployment 70]]))"
proof -
  have h1: "0 < deployment_batch_size (sample_scheduler 3 2)"
    by (simp add: sample_scheduler_def)
  have h2: "\<forall>s i a b m. \<exists>rs. no_runs s i a b m = Inr rs" by (simp add: no_runs_def)
  have h3: "\<forall>s b. \<exists>s' r. insert_runs s b = Inr (s', r)" by (simp add: insert_runs_def Let_def)
  have h4: "distinct (map Deployment.id seven_deployments)"
    by (simp add: seven_deployments_def sample_deployment_def)
  have h5: "\<forall>d\<in>set seven_deployments. uuid_truthy (Deployment.id d)"
    by (simp add: uuid_truthy_def)
  have ev: "run_once_loop (sample_scheduler 3 2) uuid_truthy no_runs insert_runs
      seven_deployments 0 None [] 0 []
     = Some (Inr ([], 0,
         [[sample_deployment 10, sample_deployment 20, sample_deployment 30],
          [sample_deployment 40, sample_deployment 50, sample_deployment 60],
          [sample_deployment 70]]))"
    by (simp add: run_once_loop.simps eval_defs sample_defs seven_deployments_def
        batched_iterable_Nil)
  note t = pagination_visits_each_once [OF h1 h2 h3 h4 h5, where now = 0 and session = "[]"]
  have h5': "list_all (\<lambda>d. uuid_truthy (Deployment.id d)) seven_deployments"
    using h5 by (simp only: list_all_iff)
  show ?thesis by (intro conjI h1 h4 h5' t ev)
qed



text \<open>
  C5. With an insert that deduplicates on a key and a generator whose result does not
  depend on the session: if one invocation returns, a second invocation with the same
  schedules, deployment table and captured \<open>now\<close>, started from the table that the
  first left, returns too and leaves that table as it is. After a first run that
  committed it reports a total of zero; after a first run that raised (and so left the
  table unchanged) it raises the same error.
\<close>

theorem second_run_inserts_nothing:
  assumes dd: "deduplicates_on key ins" and det: "deterministic gen"
    and first: "run_once self truthy gen ins table now db = Some (db1, r1)"
  shows "run_once self truthy gen ins table now db1
       = Some (db1, case r1 of Inl e \<Rightarrow> Inl e | Inr n \<Rightarrow> Inr 0)"
proof (cases "run_once_loop self truthy gen ins table now None db 0 []")
  case None
  with first show ?thesis by (simp add: run_once_def)
next
  case (Some y)
  show ?thesis
  proof (cases y)
    case (Inl e)
    with Some first have "db1 = db" "r1 = Inl e" by (simp_all add: run_once_def)
    with Some Inl show ?thesis by (simp add: run_once_def)
  next
    case (Inr q)
    obtain s' t' pages' where q: "q = (s', t', pages')" by (cases q)
    with Some Inr first have r: "db1 = s'" "r1 = Inr t'" by (simp_all add: run_once_def)
    from run_once_loop_idempotent [OF dd det Some] Inr q
    obtain pg where "run_once_loop self truthy gen ins table now None s' 0 []
        = Some (Inr (s', 0, pg))"
      by blast
    with r show ?thesis by (simp add: run_once_def)
  qed
qed

theorem second_run_inserts_nothing_witness:
  "deduplicates_on run_key insert_runs \<and>
   deterministic (hourly :: (RunSpec list, RunSpec) generator) \<and>
   run_once (sample_scheduler 2 1) uuid_truthy hourly insert_runs
      [sample_deployment 30, sample_deployment 10, sample_deployment 20] 0 []
    = Some ([sample_run 10 1, sample_run 10 2, sample_run 20 1, sample_run 20 2,
       sample_run 30 1, sample_run 30 2], Inr 6) \<and>
   run_once (sample_scheduler 2 1) uuid_truthy hourly insert_runs
      [sample_deployment 30, sample_deployment 10, sample_deployment 20] 0
      [sample_run 10 1, sample_run 10 2, sample_run 20 1, sample_run 20 2,
       sample_run 30 1, sample_run 30 2]
    = Some ([sample_run 10 1, sample_run 10 2, sample_run 20 1, sample_run 20 2,
       sample_run 30 1, sample_run 30 2], Inr 0)"
proof -
  have det: "deterministic (hourly :: (RunSpec list, RunSpec) generator)"
    by (simp add: deterministic_def hourly_def fun_eq_iff)
  have "run_once (sample_scheduler 2 1) uuid_truthy hourly insert_runs
      [sample_deployment 30, sample_deployment 10, sample_deployment 20] 0
      [sample_run 10 1, sample_run 10 2, sample_run 20 1, sample_run 20 2,
       sample_run 30 1, sample_run 30 2]
    = Some ([sample_run 10 1, sample_run 10 2, sample_run 20 1, sample_run 20 2,
       sample_run 30 1, sample_run 30 2], Inr 0)"
    using second_run_inserts_nothing [OF insert_runs_deduplicates det eval_first_run] by simp
  then show ?thesis by (intro conjI insert_runs_deduplicates det eval_first_run)
qed

text \<open>
  C9. With a positive insert batch size, in a page that completes without an error: the
  batches offered to the insert, in order, joined, are the candidates that the generator
  returned for the page's deployments, in page order, so each candidate is offered once;
  each batch has at most \<open>insert_batch_size\<close> runs. The offers are observed by wrapping
  the insert in \<open>recording\<close>, which does not change what the page does.
\<close>

theorem page_offers_each_candidate_once:
  assumes "0 < scheduler_insert_batch_size self"
    and "process_page self (on_session gen) (recording ins) now (session, offered) tot deployments
           = Inr ((session', offered'), tot')"
  shows "\<exists>chunks. offered' = offered @ chunks \<and>
           concat chunks = concat (map (candidates gen session self now) deployments) \<and>
           (\<forall>c\<in>set chunks. length c \<le> scheduler_insert_batch_size self) \<and>
           (\<forall>d\<in>set deployments.
              gen session (Deployment.id d) now (now + max_scheduled_time self) (max_runs self)
                = Inr (candidates gen session self now d)) \<and>
           process_page self gen ins now session tot deployments = Inr (session', tot')"
proof (cases "collect_runs gen session self now deployments []")
  case (Inl e)
  with assms(2) show ?thesis by (simp add: process_page_def collect_runs_on_session)
next
  case (Inr all_runs)
  let ?chunks = "batched_iterable all_runs (scheduler_insert_batch_size self)"
  from assms(2) Inr
  have "insert_batches (recording ins) (session, offered) tot ?chunks
      = Inr ((session', offered'), tot')"
    by (simp add: process_page_def collect_runs_on_session)
  from insert_batches_recording [OF this]
  have 1: "offered' = offered @ ?chunks" "insert_batches ins session tot ?chunks = Inr (session', tot')"
    by simp_all
  from collect_runs_candidates [OF Inr]
  have 2: "all_runs = concat (map (candidates gen session self now) deployments)"
    "\<forall>d\<in>set deployments.
        gen session (Deployment.id d) now (now + max_scheduled_time self) (max_runs self)
          = Inr (candidates gen session self now d)"
    by simp_all
  have 3: "concat ?chunks = all_runs" using assms(1) by (rule concat_batched_iterable)
  have 4: "\<forall>c\<in>set ?chunks. length c \<le> scheduler_insert_batch_size self"
    using length_batched_iterable by blast
  have 5: "process_page self gen ins now session tot deployments = Inr (session', tot')"
    using Inr 1(2) by (simp add: process_page_def)
  show ?thesis using 1(1) 2 3 4 5 by blast
qed

theorem page_offers_each_candidate_once_witness:
  "0 < scheduler_insert_batch_size (sample_scheduler 3 1) \<and>
   process_page (sample_scheduler 3 1) (on_session hourly) (recording insert_runs) 0
      ([], []) 0 [sample_deployment 10]
    = Inr (([sample_run 10 1, sample_run 10 2], [[sample_run 10 1], [sample_run 10 2]]), 2) \<and>
   (\<exists>chunks. [[sample_run 10 1], [sample_run 10 2]] = [] @ chunks \<and>
      concat chunks
        = concat (map (candidates hourly ([] :: RunSpec list) (sample_scheduler 3 1) 0)
            [sample_deployment 10]) \<and>
      (\<forall>c\<in>set chunks. length c \<le> scheduler_insert_batch_size (sample_scheduler 3 1)) \<and>
      (\<forall>d\<in>set [sample_deployment 10].
         hourly ([] :: RunSpec list) (Deployment.id d) 0
           (0 + max_scheduled_time (sample_scheduler 3 1))
           (max_runs (sample_scheduler 3 1))
           = Inr (candidates hourly ([] :: RunSpec list) (sample_scheduler 3 1) 0 d)) \<and>
      process_page (sample_scheduler 3 1) hourly insert_runs 0 [] 0 [sample_deployment 10]
        = Inr ([sample_run 10 1, sample_run 10 2], 2))"
proof -
  have h: "0 < scheduler_insert_batch_size (sample_scheduler 3 1)"
    by (simp add: sample_scheduler_def)
  show ?thesis
    by (intro conjI h eval_recorded_page
        page_offers_each_candidate_once [OF h eval_recorded_page])
qed

text \<open>
  C10. For a deployment table whose identifiers are all true in Python's sense, the loop
  of \<open>run_once\<close> returns, and so does the invocation, with a result or an error. After
  every non-empty page the new cursor is greater than a cursor in force, and strictly
  fewer deployments pass the query under the new cursor than under the old one.
\<close>

theorem run_once_terminates:
  assumes tr: "\<forall>d\<in>set table. truthy (Deployment.id d)"
  shows "(\<exists>r. run_once_loop self truthy gen ins table now None session 0 [] = Some r) \<and>
    (\<exists>r. run_once self truthy gen ins table now session = Some r) \<and>
    (\<forall>last_id. page_query truthy n last_id table \<noteq> [] \<longrightarrow>
       (\<forall>c. last_id = Some c \<and> truthy c \<longrightarrow>
          c < Deployment.id (last (page_query truthy n last_id table))) \<and>
       length (filter (\<lambda>d. schedulable d \<and>
            after_cursor truthy (Some (Deployment.id (last (page_query truthy n last_id table)))) d)
          table)
         < length (filter (\<lambda>d. schedulable d \<and> after_cursor truthy last_id d) table))"
proof (intro conjI allI impI)
  from run_once_loop_returns [OF tr]
  show "\<exists>r. run_once_loop self truthy gen ins table now None session 0 [] = Some r" .
next
  from run_once_loop_returns [OF tr, where self = self and gen = gen and ins = ins
      and now = now and last_id = None and session = session and tot = 0 and pages = "[]"]
  obtain r where "run_once_loop self truthy gen ins table now None session 0 [] = Some r"
    by blast
  then show "\<exists>r. run_once self truthy gen ins table now session = Some r"
    by (cases r) (auto simp add: run_once_def)
next
  fix last_id c
  assume "page_query truthy n last_id table \<noteq> []" and c: "last_id = Some c \<and> truthy c"
  from page_last_facts(3) [OF this(1)] c
  show "c < Deployment.id (last (page_query truthy n last_id table))"
    by (simp add: after_cursor_def)
next
  fix last_id
  assume ne: "page_query truthy n last_id table \<noteq> []"
  note mem = page_last_facts [OF ne]
  from mem(1) tr have "truthy (Deployment.id (last (page_query truthy n last_id table)))"
    by blast
  from after_cursor_shrinks [OF mem this]
  show "length (filter (\<lambda>d. schedulable d \<and>
            after_cursor truthy (Some (Deployment.id (last (page_query truthy n last_id table)))) d)
          table)
         < length (filter (\<lambda>d. schedulable d \<and> after_cursor truthy last_id d) table)" .
qed

theorem run_once_terminates_witness:
  "list_all (\<lambda>d. uuid_truthy (Deployment.id d))
      [sample_deployment 30, sample_deployment 10, sample_deployment 20] \<and>
   (\<exists>r. run_once (sample_scheduler 2 1) uuid_truthy hourly insert_runs
      [sample_deployment 30, sample_deployment 10, sample_deployment 20] 0 ([] :: RunSpec list) = Some r)"
proof -
  have h: "\<forall>d\<in>set [sample_deployment 30, sample_deployment 10, sample_deployment 20].
      uuid_truthy (Deployment.id d)"
    by (simp add: uuid_truthy_def)
  note t = run_once_terminates [OF h, where self = "sample_scheduler 2 1"
      and gen = "hourly :: (RunSpec list, RunSpec) generator" and ins = insert_runs
      and now = 0 and session = "[]"]
  have h': "list_all (\<lambda>d. uuid_truthy (Deployment.id d))
      [sample_deployment 30, sample_deployment 10, sample_deployment 20]"
    using h by (simp only: list_all_iff)
  show ?thesis by (intro conjI h' t [THEN conjunct2, THEN conjunct1])
qed

end
